theory Spec2Isabelle
  imports
    Complex_Main
    "HOL-Library.Word"
    "HOL-Library.Sublist"
    "HOL-Library.Multiset"
    "HOL-Library.AList"
begin

section \<open>Strings and numbers of the source language\<close>

text \<open>
  A string of the source is a sequence of 16-bit code units: \<open>length\<close> and
  \<open>substring\<close> count code units. A literal written in ASCII is lifted with \<open>ascii\<close>;
  the literals of the source that are not ASCII are given by their code units.
  A \<open>number\<close> of the source is modelled by a real number (no NaN: the one place
  where the source may produce it replaces it at once, see \<open>toSpeechResult\<close>).
\<close>

type_synonym jstring = "16 word list"

definition ascii :: "string \<Rightarrow> jstring" where
  "ascii s = map of_char s"

text \<open>\<open>xs.join(sep)\<close> on an array of strings.\<close>

fun join :: "jstring \<Rightarrow> jstring list \<Rightarrow> jstring" where
  "join sep [] = []"
| "join sep [x] = x"
| "join sep (x # y # ys) = x @ sep @ join sep (y # ys)"

text \<open>\<open>s.trim()\<close>: white space and line terminators are removed at both ends.\<close>

definition isWhiteSpace :: "16 word \<Rightarrow> bool" where
  "isWhiteSpace c \<longleftrightarrow>
     c \<in> set [0x0009, 0x000A, 0x000B, 0x000C, 0x000D, 0x0020, 0x00A0, 0x1680,
              0x2000, 0x2001, 0x2002, 0x2003, 0x2004, 0x2005, 0x2006, 0x2007, 0x2008,
              0x2009, 0x200A, 0x2028, 0x2029, 0x202F, 0x205F, 0x3000, 0xFEFF]"

definition trim :: "jstring \<Rightarrow> jstring" where
  "trim s = rev (dropWhile isWhiteSpace (rev (dropWhile isWhiteSpace s)))"


section \<open>Errors\<close>

text \<open>
  Every \<open>throw\<close> of the source and every failure of a collaborator (completion service,
  embedding service, store) is a value. A collaborator fails with \<open>ServiceFailure\<close> and
  a code of its own.
\<close>

datatype error =
    LLMNotInitialized
  | DatabaseNotInitialized
  | SearchNotInitialized
  | PlanParseError
  | NoTextInCompletion
  | TypeError
  | ServiceFailure nat

section \<open>Literals of the source\<close>

text \<open>The planner prompt up to the opening quote before the question (43 code units).\<close>

definition planPrompt_head :: jstring where
  "planPrompt_head =
    [22269, 20250, 35696, 20107, 37682, 26908, 32034, 12471, 12473, 12486, 12512, 12398,
     12503, 12521, 12531, 12490, 12540, 12392, 12375, 12390, 12289, 20197, 19979, 12398,
     36074, 21839, 12434, 20998, 26512, 12375, 12390, 12367, 12384, 12373, 12356, 12290, 10,
     10, 36074, 21839, 58, 32, 34]"

text \<open>The planner prompt from the closing quote after the question: the JSON shape asked for, the five rules and the worked example (799 code units).\<close>

definition planPrompt_tail :: jstring where
  "planPrompt_tail =
    [34, 10, 10, 20197, 19979, 12398, 74, 83, 79, 78, 24418, 24335, 12391, 20986, 21147,
     12375, 12390, 12367, 12384, 12373, 12356, 65288, 96, 96, 96, 106, 115, 111, 110, 31561,
     12399, 19981, 35201, 65289, 65306, 10, 123, 10, 32, 32, 34, 115, 117, 98, 113, 117,
     101, 114, 105, 101, 115, 34, 58, 32, 91, 10, 32, 32, 32, 32, 34, 36074, 21839, 12434,
     21177, 26524, 30340, 12395, 26908, 32034, 12377, 12427, 12383, 12417, 12398, 20998,
     35299, 12373, 12428, 12383, 12469, 12502, 12463, 12456, 12522, 49, 34, 44, 10, 32, 32,
     32, 32, 34, 12469, 12502, 12463, 12456, 12522, 50, 34, 10, 32, 32, 93, 44, 10, 32, 32,
     34, 101, 110, 116, 105, 116, 105, 101, 115, 34, 58, 32, 123, 10, 32, 32, 32, 32, 34,
     115, 112, 101, 97, 107, 101, 114, 115, 34, 58, 32, 91, 34, 35696, 21729, 21517, 12364,
     12354, 12428, 12400, 20855, 20307, 30340, 12395, 12290, 32207, 29702, 8594, 23736,
     30000, 25991, 38596, 31561, 34, 93, 44, 10, 32, 32, 32, 32, 34, 112, 97, 114, 116, 105,
     101, 115, 34, 58, 32, 91, 34, 25919, 20826, 21517, 12364, 12354, 12428, 12400, 34, 93,
     44, 10, 32, 32, 32, 32, 34, 116, 111, 112, 105, 99, 115, 34, 58, 32, 91, 34, 20027,
     35201, 12461, 12540, 12527, 12540, 12489, 34, 44, 32, 34, 38306, 36899, 35486, 12539,
     21516, 32681, 35486, 34, 93, 44, 10, 32, 32, 32, 32, 34, 109, 101, 101, 116, 105, 110,
     103, 115, 34, 58, 32, 91, 34, 29305, 23450, 12398, 22996, 21729, 20250, 12420, 20250,
     35696, 12364, 12354, 12428, 12400, 34, 93, 44, 10, 32, 32, 32, 32, 34, 112, 111, 115,
     105, 116, 105, 111, 110, 115, 34, 58, 32, 91, 34, 24441, 32887, 12364, 12354, 12428,
     12400, 20855, 20307, 30340, 12395, 34, 93, 44, 10, 32, 32, 32, 32, 34, 100, 97, 116,
     101, 82, 97, 110, 103, 101, 34, 58, 32, 123, 34, 115, 116, 97, 114, 116, 34, 58, 32,
     34, 89, 89, 89, 89, 45, 77, 77, 45, 68, 68, 34, 44, 32, 34, 101, 110, 100, 34, 58, 32,
     34, 89, 89, 89, 89, 45, 77, 77, 45, 68, 68, 34, 125, 10, 32, 32, 125, 44, 10, 32, 32,
     34, 101, 110, 97, 98, 108, 101, 100, 83, 116, 114, 97, 116, 101, 103, 105, 101, 115,
     34, 58, 32, 91, 34, 118, 101, 99, 116, 111, 114, 34, 44, 32, 34, 115, 116, 114, 117,
     99, 116, 117, 114, 101, 100, 34, 93, 44, 10, 32, 32, 34, 99, 111, 110, 102, 105, 100,
     101, 110, 99, 101, 34, 58, 32, 48, 46, 56, 44, 10, 32, 32, 34, 101, 115, 116, 105, 109,
     97, 116, 101, 100, 67, 111, 109, 112, 108, 101, 120, 105, 116, 121, 34, 58, 32, 50, 10,
     125, 10, 10, 12523, 12540, 12523, 58, 10, 49, 46, 32, 115, 117, 98, 113, 117, 101, 114,
     105, 101, 115, 12399, 36074, 21839, 12434, 21177, 26524, 30340, 12395, 20998, 35299,
     12375, 12383, 12418, 12398, 65288, 49, 45, 51, 20491, 65289, 10, 50, 46, 32, 101, 110,
     116, 105, 116, 105, 101, 115, 12399, 22269, 20250, 35696, 20107, 37682, 26908, 32034,
     12395, 26377, 21177, 12394, 24773, 22577, 12398, 12415, 25277, 20986, 10, 51, 46, 32,
     101, 110, 97, 98, 108, 101, 100, 83, 116, 114, 97, 116, 101, 103, 105, 101, 115, 12399,
     91, 34, 118, 101, 99, 116, 111, 114, 34, 44, 32, 34, 115, 116, 114, 117, 99, 116, 117,
     114, 101, 100, 34, 44, 32, 34, 115, 116, 97, 116, 105, 115, 116, 105, 99, 97, 108, 34,
     93, 12363, 12425, 36984, 25246, 10, 52, 46, 32, 99, 111, 110, 102, 105, 100, 101, 110,
     99, 101, 12399, 35299, 26512, 12398, 20449, 38972, 24230, 40, 48, 45, 49, 41, 10, 53,
     46, 32, 101, 115, 116, 105, 109, 97, 116, 101, 100, 67, 111, 109, 112, 108, 101, 120,
     105, 116, 121, 12399, 20966, 29702, 12398, 35079, 38609, 12373, 40, 49, 45, 53, 41, 10,
     10, 20363, 65306, 10, 36074, 21839, 12300, 23736, 30000, 32207, 29702, 12398, 38450,
     34907, 36027, 12395, 12388, 12356, 12390, 12398, 30330, 35328, 12301, 10, 8594, 32,
     115, 112, 101, 97, 107, 101, 114, 115, 58, 32, 91, 34, 23736, 30000, 25991, 38596, 34,
     44, 32, 34, 20869, 38307, 32207, 29702, 22823, 33251, 34, 93, 10, 8594, 32, 116, 111,
     112, 105, 99, 115, 58, 32, 91, 34, 38450, 34907, 36027, 34, 44, 32, 34, 38450, 34907,
     20104, 31639, 34, 44, 32, 34, 38450, 34907, 38306, 20418, 36027, 34, 44, 32, 34, 22269,
     38450, 36027, 34, 93, 10, 8594, 32, 115, 117, 98, 113, 117, 101, 114, 105, 101, 115,
     58, 32, 91, 34, 23736, 30000, 32207, 29702, 32, 38450, 34907, 36027, 34, 44, 32, 34,
     20869, 38307, 32207, 29702, 22823, 33251, 32, 38450, 34907, 20104, 31639, 34, 93]"





















text \<open>Placeholder for a missing speaker (unknown member, in Japanese).\<close>

definition unknownSpeaker :: jstring where
  "unknownSpeaker =
    [26410, 30693, 12398, 35696, 21729]"

section \<open>Data model\<close>

record SpeechResult =
  speechId :: jstring
  speaker :: jstring
  party :: jstring
  date :: jstring
  meeting :: jstring
  content :: jstring
  url :: jstring
  score :: real

text \<open>\<open>dateRange?: {start, end}\<close>.\<close>

record DateRange =
  range_start :: jstring
  range_end :: jstring

text \<open>\<open>interface KokkaiEntities\<close>: every field is optional.\<close>

record KokkaiEntities =
  speakers :: "jstring list option"
  parties :: "jstring list option"
  dateRange :: "DateRange option"
  meetings :: "jstring list option"
  topics :: "jstring list option"
  positions :: "jstring list option"

text \<open>\<open>interface QueryPlan\<close>, as declared: the type that \<open>searchWithPlan\<close> takes.\<close>

record QueryPlan =
  originalQuestion :: jstring
  subqueries :: "jstring list"
  entities :: KokkaiEntities
  enabledStrategies :: "jstring list"
  confidence :: real
  estimatedComplexity :: real

text \<open>
  \<open>interface DatabaseRow\<close>; the fields carry the prefix \<open>row_\<close> here. A row of the
  candidate query of the structured filter has the column \<open>speech_id\<close> only.
\<close>

record DatabaseRow =
  row_speech_id :: jstring
  row_speaker :: "jstring option"
  row_speaker_group :: "jstring option"
  row_date :: "jstring option"
  row_meeting_name :: "jstring option"
  row_speech_text :: "jstring option"
  row_speech_url :: "jstring option"
  row_similarity_score :: jstring

section \<open>Values produced by \<open>JSON.parse\<close>\<close>

text \<open>
  The planner's response is parsed into a value of type \<open>any\<close>; the plan it builds
  holds whatever the response held. \<open>JUndefined\<close> is the result of reading a property
  that is not there. An object is the list of its entries (their keys are distinct).
\<close>

datatype jsval =
    JUndefined
  | JNull
  | JBool bool
  | JNum real
  | JStr jstring
  | JArr "jsval list"
  | JObj "(jstring \<times> jsval) list"

text \<open>Truthiness: \<open>undefined\<close>, \<open>null\<close>, \<open>false\<close>, \<open>0\<close> and \<open>""\<close> are falsy.\<close>

fun truthy :: "jsval \<Rightarrow> bool" where
  "truthy JUndefined = False"
| "truthy JNull = False"
| "truthy (JBool b) = b"
| "truthy (JNum x) = (x \<noteq> 0)"
| "truthy (JStr s) = (s \<noteq> [])"
| "truthy (JArr vs) = True"
| "truthy (JObj kvs) = True"

text \<open>\<open>a || b\<close>.\<close>

definition js_or :: "jsval \<Rightarrow> jsval \<Rightarrow> jsval" where
  "js_or a b = (if truthy a then a else b)"

text \<open>
  \<open>v.name\<close> for one of the names the planner reads (\<open>subqueries\<close>, \<open>entities\<close>,
  \<open>speakers\<close>, ...): reading from \<open>undefined\<close> or \<open>null\<close> throws a TypeError; an object
  gives its entry or \<open>undefined\<close>; a number, boolean, string or array has no property
  of such a name.
\<close>

fun getProp :: "jsval \<Rightarrow> jstring \<Rightarrow> error + jsval" where
  "getProp JUndefined name = Inl TypeError"
| "getProp JNull name = Inl TypeError"
| "getProp (JObj kvs) name = Inr (case map_of kvs name of None \<Rightarrow> JUndefined | Some v \<Rightarrow> v)"
| "getProp v name = Inr JUndefined"

text \<open>\<open>v?.name\<close>: \<open>undefined\<close> when \<open>v\<close> is \<open>undefined\<close> or \<open>null\<close>.\<close>

definition optProp :: "jsval \<Rightarrow> jstring \<Rightarrow> jsval" where
  "optProp v name = (case getProp v name of Inl e \<Rightarrow> JUndefined | Inr x \<Rightarrow> x)"

section \<open>Query planner: \<open>planKokkaiQuery\<close> and \<open>createQueryPlan\<close>\<close>

text \<open>
  The object the planner returns. Its fields are assigned from a value of type \<open>any\<close>,
  so each of them is a value of the source language, whatever the interface declares.
\<close>

record EntitiesObject =
  ent_speakers :: jsval
  ent_parties :: jsval
  ent_topics :: jsval
  ent_meetings :: jsval
  ent_positions :: jsval
  ent_dateRange :: jsval

record PlanObject =
  plan_originalQuestion :: jstring
  plan_subqueries :: jsval
  plan_entities :: EntitiesObject
  plan_enabledStrategies :: jsval
  plan_confidence :: jsval
  plan_estimatedComplexity :: jsval

text \<open>
  The conversion of the parsed response into a plan (\<open>const plan: QueryPlan = {...}\<close>,
  the same in both planners). Reading \<open>planData.subqueries\<close> throws when the response
  parsed to \<open>null\<close>.
\<close>

definition toQueryPlan :: "jstring \<Rightarrow> jsval \<Rightarrow> error + PlanObject" where
  "toQueryPlan question planData =
     (case getProp planData (ascii ''subqueries'') of
        Inl e \<Rightarrow> Inl e
      | Inr sub \<Rightarrow>
          (let ents = optProp planData (ascii ''entities'') in
           Inr \<lparr> plan_originalQuestion = question,
                 plan_subqueries = js_or sub (JArr [JStr question]),
                 plan_entities =
                   \<lparr> ent_speakers = js_or (optProp ents (ascii ''speakers'')) (JArr []),
                     ent_parties = js_or (optProp ents (ascii ''parties'')) (JArr []),
                     ent_topics = js_or (optProp ents (ascii ''topics'')) (JArr []),
                     ent_meetings = js_or (optProp ents (ascii ''meetings'')) (JArr []),
                     ent_positions = js_or (optProp ents (ascii ''positions'')) (JArr []),
                     ent_dateRange = optProp ents (ascii ''dateRange'') \<rparr>,
                 plan_enabledStrategies =
                   js_or (optProp planData (ascii ''enabledStrategies''))
                     (JArr [JStr (ascii ''vector'')]),
                 plan_confidence = js_or (optProp planData (ascii ''confidence'')) (JNum 0.5),
                 plan_estimatedComplexity =
                   js_or (optProp planData (ascii ''estimatedComplexity'')) (JNum 2) \<rparr>))"

text \<open>
  The log lines after the conversion call methods on the plan's fields:
  \<open>plan.enabledStrategies.join(", ")\<close> throws a TypeError unless the field is an
  array, and \<open>plan.confidence.toFixed(2)\<close> throws one unless the field is a number.
  (\<open>plan.subqueries.length\<close> and \<open>plan.entities.speakers?.length\<close> read a property of
  a truthy value and cannot throw, nor can the \<open>JSON.stringify(plan)\<close> that
  \<open>createQueryPlan\<close> logs in addition.) The text printed is not modelled.
\<close>

definition logPlan :: "PlanObject \<Rightarrow> error + unit" where
  "logPlan plan =
     (case plan_enabledStrategies plan of
        JArr vs \<Rightarrow> (case plan_confidence plan of JNum c \<Rightarrow> Inr () | _ \<Rightarrow> Inl TypeError)
      | _ \<Rightarrow> Inl TypeError)"

text \<open>
  What both planners do with the parsed response: build the plan, write the log lines,
  return the plan.
\<close>

definition planFromResponse :: "jstring \<Rightarrow> jsval \<Rightarrow> error + PlanObject" where
  "planFromResponse question planData =
     (case toQueryPlan question planData of
        Inl e \<Rightarrow> Inl e
      | Inr plan \<Rightarrow> (case logPlan plan of Inl e \<Rightarrow> Inl e | Inr u \<Rightarrow> Inr plan))"

definition planPrompt :: "jstring \<Rightarrow> jstring" where
  "planPrompt question = planPrompt_head @ question @ planPrompt_tail"

text \<open>
  \<open>planKokkaiQuery\<close>. \<open>llm\<close> is \<open>Settings.llm\<close> (absent before initialisation): the
  completion service, from the prompt to the response text or a failure.
  \<open>JSON_parse\<close> is the parser of the source language, \<open>None\<close> for a syntax error.
  The \<open>catch\<close> around the body logs and re-throws, so every error is returned as it is.
\<close>

definition planKokkaiQuery ::
  "(jstring \<Rightarrow> error + jstring) option \<Rightarrow> (jstring \<Rightarrow> jsval option) \<Rightarrow> jstring
     \<Rightarrow> error + PlanObject" where
  "planKokkaiQuery llm JSON_parse question =
     (case llm of
        None \<Rightarrow> Inl LLMNotInitialized
      | Some llm_complete \<Rightarrow>
          (case llm_complete (planPrompt question) of
             Inl e \<Rightarrow> Inl e
           | Inr responseText \<Rightarrow>
               (case JSON_parse (trim responseText) of
                  None \<Rightarrow> Inl PlanParseError
                | Some planData \<Rightarrow> planFromResponse question planData)))"

text \<open>
  \<open>createQueryPlan\<close> of the planning service. The prompts and the client come from
  modules that are parameters here: \<open>createQueryPlanPrompt\<close> builds the user prompt,
  \<open>chat\<close> is the chat completion on the system prompt and the user prompt, returning the
  content of the first choice if there is one.
\<close>

definition createQueryPlan ::
  "(jstring \<Rightarrow> jstring) \<Rightarrow> (jstring \<Rightarrow> error + jstring option) \<Rightarrow> (jstring \<Rightarrow> jsval option)
     \<Rightarrow> jstring \<Rightarrow> error + PlanObject" where
  "createQueryPlan createQueryPlanPrompt chat JSON_parse userQuestion =
     (case chat (createQueryPlanPrompt userQuestion) of
        Inl e \<Rightarrow> Inl e
      | Inr content' \<Rightarrow>
          (case map_option trim content' of
             None \<Rightarrow> Inl NoTextInCompletion
           | Some planText \<Rightarrow>
               if planText = [] then Inl NoTextInCompletion
               else
                 (case JSON_parse planText of
                    None \<Rightarrow> Inl PlanParseError
                  | Some planData \<Rightarrow> planFromResponse userQuestion planData)))"

section \<open>Store queries\<close>

text \<open>
  The source sends SQL text with numbered placeholders and an array of parameters.
  The text is modelled by its structure. A condition of the candidate query is
  \<^item> \<open>ILike col n\<close> for \<open>(e.col ILIKE $n)\<close>,
  \<^item> \<open>AnyOf cs\<close> for the conditions \<open>cs\<close> joined by \<open>OR\<close> in parentheses,
  \<^item> \<open>DateBetween s e\<close> for \<open>(e.date >= $s AND e.date <= $e)\<close>.
\<close>

datatype sql_column = Speaker | SpeakerGroup

datatype sql_condition =
    ILike sql_column nat
  | AnyOf "sql_condition list"
  | DateBetween nat nat

text \<open>
  \<^item> \<open>SelectCandidates cs\<close> is \<open>SELECT DISTINCT e.speech_id FROM kokkai_speech_embeddings e
    WHERE\<close> the conditions \<open>cs\<close> joined by \<open>AND\<close>, \<open>LIMIT 1000\<close>.
  \<^item> \<open>SelectSimilar r c l\<close> is the similarity search: the columns of a row and
    \<open>1 - (embedding <=> $1)\<close> as the score, \<open>WHERE embedding <=> $1 < c\<close>, ordered by
    that distance, \<open>LIMIT $l\<close>; with \<open>r = Some i\<close> the \<open>WHERE\<close> clause also has
    \<open>speech_id = ANY($i::text[])\<close>.
\<close>

datatype sql_query =
    SelectCandidates "sql_condition list"
  | SelectSimilar "nat option" real nat

datatype sql_param =
    PText jstring
  | PTextArray "jstring list"
  | PVector "real list"
  | PNumber int

type_synonym store = "sql_query \<Rightarrow> sql_param list \<Rightarrow> error + DatabaseRow list"

section \<open>Structured filter: \<open>applyStructuredFilter\<close>\<close>

text \<open>
  \<open>names.map((_, i) => {...})\<close>: one \<open>ILIKE\<close> condition per name; each pushes the
  pattern \<open>%name%\<close> on \<open>params\<close> and refers to it by its position.
\<close>

fun likeConditions ::
  "sql_column \<Rightarrow> jstring list \<Rightarrow> sql_param list \<Rightarrow> sql_condition list \<times> sql_param list" where
  "likeConditions col [] params = ([], params)"
| "likeConditions col (name # names) params =
     (let paramIndex = length params + 1;
          params' = params @ [PText (ascii ''%'' @ name @ ascii ''%'')];
          rest = likeConditions col names params'
      in (ILike col paramIndex # fst rest, snd rest))"

text \<open>The three blocks that fill \<open>conditions\<close> and \<open>params\<close>, in the order of the source.\<close>

definition addNameConditions ::
  "sql_column \<Rightarrow> jstring list option \<Rightarrow> sql_condition list \<times> sql_param list
     \<Rightarrow> sql_condition list \<times> sql_param list" where
  "addNameConditions col names cp =
     (case names of
        None \<Rightarrow> cp
      | Some ns \<Rightarrow>
          if length ns > 0
          then (let r = likeConditions col ns (snd cp) in (fst cp @ [AnyOf (fst r)], snd r))
          else cp)"

definition addDateCondition ::
  "DateRange option \<Rightarrow> sql_condition list \<times> sql_param list
     \<Rightarrow> sql_condition list \<times> sql_param list" where
  "addDateCondition dr cp =
     (case dr of
        None \<Rightarrow> cp
      | Some r \<Rightarrow>
          (let startParam = length (snd cp) + 1;
               endParam = length (snd cp) + 2
           in (fst cp @ [DateBetween startParam endParam],
               snd cp @ [PText (range_start r), PText (range_end r)])))"

definition filterConditions :: "KokkaiEntities \<Rightarrow> sql_condition list \<times> sql_param list" where
  "filterConditions ents =
     addDateCondition (dateRange ents)
       (addNameConditions SpeakerGroup (parties ents)
          (addNameConditions Speaker (speakers ents) ([], [])))"

text \<open>
  \<open>applyStructuredFilter\<close>: throws when there is no pool; returns \<open>[]\<close> without a query
  when no condition was built; a failure of the store query is caught and gives \<open>[]\<close>.
\<close>

definition applyStructuredFilter :: "store option \<Rightarrow> KokkaiEntities \<Rightarrow> error + jstring list" where
  "applyStructuredFilter dbPool ents =
     (case dbPool of
        None \<Rightarrow> Inl DatabaseNotInitialized
      | Some db \<Rightarrow>
          (let cp = filterConditions ents in
           if length (fst cp) = 0 then Inr []
           else
             (case db (SelectCandidates (fst cp)) (snd cp) of
                Inr rows \<Rightarrow> Inr (map row_speech_id rows)
              | Inl e \<Rightarrow> Inr [])))"

section \<open>Similarity search: the loop body of \<open>searchWithPlan\<close>\<close>

text \<open>The sub-query with the topics appended (\<open>expandedQuery\<close>).\<close>

definition expandedQuery :: "jstring \<Rightarrow> KokkaiEntities \<Rightarrow> jstring" where
  "expandedQuery subquery ents =
     (case topics ents of
        None \<Rightarrow> subquery
      | Some ts \<Rightarrow>
          if length ts > 0 then subquery @ ascii '' '' @ join (ascii '' '') ts else subquery)"

text \<open>
  The choice of \<open>searchQuery\<close> and \<open>queryParams\<close>. The structured filter is called
  only when the strategy \<open>structured\<close> is enabled.
\<close>

definition searchRequest ::
  "store \<Rightarrow> QueryPlan \<Rightarrow> int \<Rightarrow> real list \<Rightarrow> error + sql_query \<times> sql_param list" where
  "searchRequest db plan topK queryEmbedding =
     (if ascii ''structured'' \<in> set (enabledStrategies plan)
      then
        (case applyStructuredFilter (Some db) (entities plan) of
           Inl e \<Rightarrow> Inl e
         | Inr candidateIds \<Rightarrow>
             if length candidateIds > 0
             then Inr (SelectSimilar (Some 2) 0.8 3,
                       [PVector queryEmbedding, PTextArray candidateIds, PNumber topK])
             else Inr (SelectSimilar None 0.6 2, [PVector queryEmbedding, PNumber topK]))
      else Inr (SelectSimilar None 0.7 2, [PVector queryEmbedding, PNumber topK]))"

text \<open>
  What a request to the store means: the distance ceiling of its \<open>WHERE\<close> clause, and
  the ids it is restricted to (the array bound to the placeholder of \<open>ANY\<close>), if any.
\<close>

definition distanceCeiling :: "sql_query \<Rightarrow> real option" where
  "distanceCeiling q = (case q of SelectSimilar r c l \<Rightarrow> Some c | SelectCandidates cs \<Rightarrow> None)"

definition idRestriction :: "sql_query \<times> sql_param list \<Rightarrow> jstring list option" where
  "idRestriction req =
     (case fst req of
        SelectCandidates cs \<Rightarrow> None
      | SelectSimilar r c l \<Rightarrow>
          (case r of
             None \<Rightarrow> None
           | Some i \<Rightarrow>
               if 0 < i \<and> i \<le> length (snd req)
               then (case snd req ! (i - 1) of PTextArray ids \<Rightarrow> Some ids | _ \<Rightarrow> None)
               else None))"

text \<open>\<open>v || d\<close> for a nullable string: \<open>null\<close> and the empty string give the default.\<close>

definition orDefault :: "jstring option \<Rightarrow> jstring \<Rightarrow> jstring" where
  "orDefault v d = (case v of None \<Rightarrow> d | Some s \<Rightarrow> if s = [] then d else s)"

text \<open>
  A row as a result. \<open>parseFloat\<close> is the number parser of the source language, \<open>None\<close>
  when it gives NaN; \<open>parseFloat(s) || 0.0\<close> replaces NaN (and 0) by 0.
\<close>

definition toSpeechResult :: "(jstring \<Rightarrow> real option) \<Rightarrow> DatabaseRow \<Rightarrow> SpeechResult" where
  "toSpeechResult parseFloat row =
     \<lparr> speechId = row_speech_id row,
       speaker = orDefault (row_speaker row) unknownSpeaker,
       party = orDefault (row_speaker_group row) (ascii ''?''),
       date = orDefault (row_date row) (ascii ''2024-01-01''),
       meeting = orDefault (row_meeting_name row) (ascii ''?''),
       content = orDefault (row_speech_text row) [],
       url = orDefault (row_speech_url row) [],
       score = (case parseFloat (row_similarity_score row) of
                  None \<Rightarrow> 0
                | Some x \<Rightarrow> if x = 0 then 0 else x) \<rparr>"

text \<open>
  One pass of the loop: getTextEmbedding the expanded sub-query, choose the query, run it, convert
  the rows. Any failure (embedding, store) leaves the loop as an exception.
\<close>

definition searchSubquery ::
  "store \<Rightarrow> (jstring \<Rightarrow> error + real list) \<Rightarrow> (jstring \<Rightarrow> real option) \<Rightarrow> QueryPlan \<Rightarrow> int
     \<Rightarrow> jstring \<Rightarrow> error + SpeechResult list" where
  "searchSubquery db getTextEmbedding parseFloat plan topK subquery =
     (case getTextEmbedding (expandedQuery subquery (entities plan)) of
        Inl e \<Rightarrow> Inl e
      | Inr queryEmbedding \<Rightarrow>
          (case searchRequest db plan topK queryEmbedding of
             Inl e \<Rightarrow> Inl e
           | Inr req \<Rightarrow>
               (case db (fst req) (snd req) of
                  Inl e \<Rightarrow> Inl e
                | Inr rows \<Rightarrow> Inr (map (toSpeechResult parseFloat) rows))))"

text \<open>\<open>for (const subquery of plan.subqueries)\<close>, with \<open>allResults\<close> as accumulator.\<close>

fun searchLoop ::
  "store \<Rightarrow> (jstring \<Rightarrow> error + real list) \<Rightarrow> (jstring \<Rightarrow> real option) \<Rightarrow> QueryPlan \<Rightarrow> int
     \<Rightarrow> jstring list \<Rightarrow> SpeechResult list \<Rightarrow> error + SpeechResult list" where
  "searchLoop db getTextEmbedding parseFloat plan topK [] allResults = Inr allResults"
| "searchLoop db getTextEmbedding parseFloat plan topK (subquery # rest) allResults =
     (case searchSubquery db getTextEmbedding parseFloat plan topK subquery of
        Inl e \<Rightarrow> Inl e
      | Inr subqueryResults \<Rightarrow>
          searchLoop db getTextEmbedding parseFloat plan topK rest (allResults @ subqueryResults))"

section \<open>Result aggregation: the end of \<open>searchWithPlan\<close>\<close>

text \<open>
  \<open>new Map(pairs)\<close> inserts the pairs from left to right. \<open>set\<close> on a key that is
  present replaces the value in place (the key keeps its position); on a new key it
  appends the entry. \<open>values()\<close> lists the values in entry order.
\<close>

fun map_set :: "('k \<times> 'v) list \<Rightarrow> 'k \<Rightarrow> 'v \<Rightarrow> ('k \<times> 'v) list" where
  "map_set [] k v = [(k, v)]"
| "map_set (e # es) k v = (if fst e = k then (k, v) # es else e # map_set es k v)"

definition new_Map :: "('k \<times> 'v) list \<Rightarrow> ('k \<times> 'v) list" where
  "new_Map pairs = foldl (\<lambda>m kv. map_set m (fst kv) (snd kv)) [] pairs"

definition map_values :: "('k \<times> 'v) list \<Rightarrow> 'v list" where
  "map_values m = map snd m"

text \<open>
  \<open>.sort((a, b) => b.score - a.score)\<close>: the sort of the source language is stable, and
  the comparator orders by descending score. \<open>sort_key\<close> is the stable insertion sort;
  its key is the negated score.
\<close>

definition sortByScoreDesc :: "SpeechResult list \<Rightarrow> SpeechResult list" where
  "sortByScoreDesc rs = sort_key (\<lambda>r. - score r) rs"

text \<open>
  \<open>xs.slice(0, e)\<close> for an integer \<open>e\<close>: a negative end counts from the end of the array
  (and stops at 0), any other is capped by the length.
\<close>

definition slice0 :: "'a list \<Rightarrow> int \<Rightarrow> 'a list" where
  "slice0 xs e = (if e < 0 then take (nat (int (length xs) + e)) xs else take (nat e) xs)"

definition dedupe :: "SpeechResult list \<Rightarrow> SpeechResult list" where
  "dedupe allResults = map_values (new_Map (map (\<lambda>r. (speechId r, r)) allResults))"

definition aggregate :: "SpeechResult list \<Rightarrow> int \<Rightarrow> SpeechResult list" where
  "aggregate allResults topK = slice0 (sortByScoreDesc (dedupe allResults)) topK"

text \<open>
  Two conditions on the sub-query results, used to say when the aggregation does not
  depend on the order in which they arrive. \<open>hitsWith X rs\<close> are the hits of \<open>rs\<close> whose
  \<open>speechId\<close> is in \<open>X\<close>.
  \<^item> \<open>sameLastHit\<close>: whenever two sub-query results contain the same \<open>speechId\<close>, the
    last hit with that id is the same hit in both.
  \<^item> \<open>sameTieOrder\<close>: whenever two of the hits kept by the deduplication have different
    ids and equal scores, all the sub-query results that contain one of the two ids
    have the same one of the two first.
\<close>

definition hitsWith :: "jstring set \<Rightarrow> SpeechResult list \<Rightarrow> SpeechResult list" where
  "hitsWith X rs = filter (\<lambda>e. speechId e \<in> X) rs"

definition sameLastHit :: "SpeechResult list list \<Rightarrow> bool" where
  "sameLastHit perSubquery \<longleftrightarrow>
     (\<forall>L\<in>set perSubquery. \<forall>M\<in>set perSubquery. \<forall>a\<in>set L. \<forall>b\<in>set M.
        speechId a = speechId b \<longrightarrow>
          last (hitsWith {speechId a} L) = last (hitsWith {speechId b} M))"

definition sameTieOrder :: "SpeechResult list list \<Rightarrow> bool" where
  "sameTieOrder perSubquery \<longleftrightarrow>
     (\<forall>a\<in>set (dedupe (concat perSubquery)). \<forall>b\<in>set (dedupe (concat perSubquery)).
        speechId a \<noteq> speechId b \<and> score a = score b \<longrightarrow>
          (\<forall>L\<in>set perSubquery. \<forall>M\<in>set perSubquery.
             hitsWith {speechId a, speechId b} L \<noteq> []
               \<and> hitsWith {speechId a, speechId b} M \<noteq> [] \<longrightarrow>
             speechId (hd (hitsWith {speechId a, speechId b} L))
               = speechId (hd (hitsWith {speechId a, speechId b} M))))"

section \<open>\<open>searchWithPlan\<close>\<close>

text \<open>
  The collaborators of the search: the connection pool and the embedding model (both
  absent before initialisation), and the number parser.
\<close>

record services =
  dbPool :: "store option"
  embedModel :: "(jstring \<Rightarrow> error + real list) option"
  parseFloat :: "jstring \<Rightarrow> real option"

definition searchWithPlan :: "services \<Rightarrow> QueryPlan \<Rightarrow> int \<Rightarrow> error + SpeechResult list" where
  "searchWithPlan sv plan topK =
     (case dbPool sv of
        None \<Rightarrow> Inl SearchNotInitialized
      | Some db \<Rightarrow>
          (case embedModel sv of
             None \<Rightarrow> Inl SearchNotInitialized
           | Some getTextEmbedding \<Rightarrow>
               (case searchLoop db getTextEmbedding (parseFloat sv) plan topK (subqueries plan) [] of
                  Inl e \<Rightarrow> Inl e
                | Inr allResults \<Rightarrow> Inr (aggregate allResults topK))))"

section \<open>Answer synthesis: \<open>generateAnswer\<close>\<close>






section \<open>Example data\<close>

text \<open>A hit with the given id and score, used in the examples below.\<close>

definition hit :: "string \<Rightarrow> real \<Rightarrow> SpeechResult" where
  "hit ident s =
     \<lparr> speechId = ascii ident, speaker = ascii ''A'', party = ascii ''P'',
       date = ascii ''2024-05-01'', meeting = ascii ''M'', content = ascii ''text'',
       url = ascii ''https://kokkai.ndl.go.jp/txt/1'', score = s \<rparr>"

text \<open>A row of the store with the given id and score text.\<close>

definition exampleRow :: "string \<Rightarrow> string \<Rightarrow> DatabaseRow" where
  "exampleRow ident sc =
     \<lparr> row_speech_id = ascii ident, row_speaker = Some (ascii ''A''),
       row_speaker_group = None, row_date = Some (ascii ''2024-05-01''),
       row_meeting_name = Some (ascii ''M''), row_speech_text = Some (ascii ''text''),
       row_speech_url = Some (ascii ''https://kokkai.ndl.go.jp/txt/1''),
       row_similarity_score = ascii sc \<rparr>"

text \<open>
  A store whose candidate query finds one speech and whose similarity search fails for
  the embedding \<open>[1]\<close> and finds one row otherwise; a store whose candidate query fails.
\<close>

definition exampleStore :: store where
  "exampleStore q ps =
     (case q of
        SelectCandidates cs \<Rightarrow> Inr [exampleRow ''S7'' ''0'']
      | SelectSimilar r c l \<Rightarrow>
          if ps \<noteq> [] \<and> hd ps = PVector [1] then Inl (ServiceFailure 1)
          else Inr [exampleRow ''S2'' ''0.5''])"

definition failingFilterStore :: store where
  "failingFilterStore q ps =
     (case q of
        SelectCandidates cs \<Rightarrow> Inl (ServiceFailure 2)
      | SelectSimilar r c l \<Rightarrow> Inr [exampleRow ''S2'' ''0.5''])"

definition exampleEmbedding :: "jstring \<Rightarrow> error + real list" where
  "exampleEmbedding s = (if s = ascii ''a'' then Inr [1] else Inr [2])"

definition exampleParseFloat :: "jstring \<Rightarrow> real option" where
  "exampleParseFloat s = (if s = ascii ''0.5'' then Some 0.5 else None)"

definition exampleServices :: services where
  "exampleServices =
     \<lparr> dbPool = Some exampleStore, embedModel = Some exampleEmbedding,
       parseFloat = exampleParseFloat \<rparr>"

definition noEntities :: KokkaiEntities where
  "noEntities =
     \<lparr> speakers = None, parties = None, dateRange = None, meetings = None, topics = None,
       positions = None \<rparr>"

definition examplePlan :: "string list \<Rightarrow> string list \<Rightarrow> KokkaiEntities \<Rightarrow> QueryPlan" where
  "examplePlan subs strategies ents =
     \<lparr> originalQuestion = ascii ''q'', subqueries = map ascii subs, entities = ents,
       enabledStrategies = map ascii strategies, confidence = 0.5, estimatedComplexity = 2 \<rparr>"



text \<open>
  A completion service that answers with a given text, and a parser that knows the value
  of that one text.
\<close>

definition respondWith :: "jstring \<Rightarrow> jstring \<Rightarrow> error + jstring" where
  "respondWith responseText prompt = Inr responseText"

definition parsesTo :: "jstring \<Rightarrow> jsval \<Rightarrow> jstring \<Rightarrow> jsval option" where
  "parsesTo responseText v s = (if s = responseText then Some v else None)"

text \<open>
  A response with four sub-queries and its value: the JSON text of an object whose only
  field \<open>subqueries\<close> is the array of the strings a, b, c, d (without white space).
\<close>

definition fourSubqueriesText :: jstring where
  "fourSubqueriesText =
    [123, 34, 115, 117, 98, 113, 117, 101, 114, 105, 101, 115, 34, 58, 91, 34, 97, 34,
     44, 34, 98, 34, 44, 34, 99, 34, 44, 34, 100, 34, 93, 125]"

definition fourSubqueries :: jsval where
  "fourSubqueries =
     JObj [(ascii ''subqueries'',
            JArr [JStr (ascii ''a''), JStr (ascii ''b''), JStr (ascii ''c''), JStr (ascii ''d'')])]"

text \<open>
  A response with a confidence of 1.5 and a complexity of 9 and its value: the JSON text
  of an object with the fields \<open>confidence\<close> and \<open>estimatedComplexity\<close> only.
\<close>

definition outOfRangeText :: jstring where
  "outOfRangeText =
    [123, 34, 99, 111, 110, 102, 105, 100, 101, 110, 99, 101, 34, 58, 49, 46, 53, 44,
     34, 101, 115, 116, 105, 109, 97, 116, 101, 100, 67, 111, 109, 112, 108, 101, 120,
     105, 116, 121, 34, 58, 57, 125]"

definition outOfRange :: jsval where
  "outOfRange =
     JObj [(ascii ''confidence'', JNum 1.5), (ascii ''estimatedComplexity'', JNum 9)]"

text \<open>The plans that the planner builds from these two responses to the question \<open>q\<close>.\<close>

definition defaultEntities :: EntitiesObject where
  "defaultEntities =
     \<lparr> ent_speakers = JArr [], ent_parties = JArr [], ent_topics = JArr [],
       ent_meetings = JArr [], ent_positions = JArr [], ent_dateRange = JUndefined \<rparr>"

definition fourSubqueriesPlan :: PlanObject where
  "fourSubqueriesPlan =
     \<lparr> plan_originalQuestion = ascii ''q'',
       plan_subqueries =
         JArr [JStr (ascii ''a''), JStr (ascii ''b''), JStr (ascii ''c''), JStr (ascii ''d'')],
       plan_entities = defaultEntities,
       plan_enabledStrategies = JArr [JStr (ascii ''vector'')],
       plan_confidence = JNum 0.5,
       plan_estimatedComplexity = JNum 2 \<rparr>"

definition outOfRangePlan :: PlanObject where
  "outOfRangePlan =
     \<lparr> plan_originalQuestion = ascii ''q'',
       plan_subqueries = JArr [JStr (ascii ''q'')],
       plan_entities = defaultEntities,
       plan_enabledStrategies = JArr [JStr (ascii ''vector'')],
       plan_confidence = JNum 1.5,
       plan_estimatedComplexity = JNum 9 \<rparr>"

section \<open>The map of the source language as an association list\<close>

lemma map_set_update: "map_set m k v = AList.update k v m"
  by (induction m) auto

lemma foldl_map_set_distinct:
  "distinct (map fst m0) \<Longrightarrow> distinct (map fst (foldl (\<lambda>m kv. map_set m (fst kv) (snd kv)) m0 ps))"
  by (induction ps arbitrary: m0) (simp_all add: map_set_update distinct_update)

lemma foldl_map_set_keys:
  "fst ` set (foldl (\<lambda>m kv. map_set m (fst kv) (snd kv)) m0 ps) = fst ` set m0 \<union> fst ` set ps"
  by (induction ps arbitrary: m0) (auto simp: map_set_update dom_update)

lemma foldl_map_set_map_of:
  "map_of (foldl (\<lambda>m kv. map_set m (fst kv) (snd kv)) m0 ps) = map_of m0 ++ map_of (rev ps)"
proof (induction ps arbitrary: m0)
  case Nil
  show ?case by simp
next
  case (Cons p ps)
  have "map_of (foldl (\<lambda>m kv. map_set m (fst kv) (snd kv)) m0 (p # ps))
        = map_of (map_set m0 (fst p) (snd p)) ++ map_of (rev ps)"
    using Cons.IH by simp
  also have "\<dots> = (map_of m0)(fst p \<mapsto> snd p) ++ map_of (rev ps)"
    by (simp add: map_set_update update_conv')
  also have "\<dots> = map_of m0 ++ map_of (rev (p # ps))"
    by (cases p) (simp add: map_add_upd_left)
  finally show ?case .
qed

lemma new_Map_distinct: "distinct (map fst (new_Map ps))"
  unfolding new_Map_def by (rule foldl_map_set_distinct) simp

lemma new_Map_keys: "fst ` set (new_Map ps) = fst ` set ps"
  unfolding new_Map_def by (simp add: foldl_map_set_keys)

lemma new_Map_map_of: "map_of (new_Map ps) = map_of (rev ps)"
  unfolding new_Map_def by (simp add: foldl_map_set_map_of)

section \<open>Properties of the aggregation\<close>


lemma new_Map_entries: "set (new_Map ps) \<subseteq> set ps"
proof -
  have "(k, v) \<in> set ps" if "(k, v) \<in> set (new_Map ps)" for k v
  proof -
    have "map_of (new_Map ps) k = Some v"
      using new_Map_distinct that by (rule map_of_is_SomeI)
    then have "map_of (rev ps) k = Some v" by (simp add: new_Map_map_of)
    then have "(k, v) \<in> set (rev ps)" by (rule map_of_SomeD)
    then show ?thesis by simp
  qed
  then show ?thesis by auto
qed

lemma dedupe_subset: "set (dedupe xs) \<subseteq> set xs"
  using new_Map_entries [of "map (\<lambda>r. (speechId r, r)) xs"]
  by (auto simp: dedupe_def map_values_def)

lemma dedupe_ids: "map speechId (dedupe xs) = map fst (new_Map (map (\<lambda>r. (speechId r, r)) xs))"
proof -
  have "speechId (snd p) = fst p" if "p \<in> set (new_Map (map (\<lambda>r. (speechId r, r)) xs))" for p
    using that new_Map_entries [of "map (\<lambda>r. (speechId r, r)) xs"] by auto
  then show ?thesis by (simp add: dedupe_def map_values_def)
qed

lemma dedupe_distinct_ids: "distinct (map speechId (dedupe xs))"
  by (simp add: dedupe_ids new_Map_distinct)

lemma dedupe_id_set: "speechId ` set (dedupe xs) = speechId ` set xs"
proof -
  have "speechId ` set (dedupe xs) = set (map speechId (dedupe xs))" by simp
  also have "\<dots> = fst ` set (new_Map (map (\<lambda>r. (speechId r, r)) xs))"
    by (simp only: dedupe_ids set_map)
  also have "\<dots> = speechId ` set xs" by (simp add: new_Map_keys image_image)
  finally show ?thesis .
qed

lemma sortByScoreDesc_mset: "mset (sortByScoreDesc rs) = mset rs"
  by (simp add: sortByScoreDesc_def)

lemma sortByScoreDesc_sorted: "sorted_wrt (\<lambda>a b. score b \<le> score a) (sortByScoreDesc rs)"
proof -
  have "sorted (map (\<lambda>r. - score r) (sortByScoreDesc rs))"
    by (simp add: sortByScoreDesc_def)
  then show ?thesis by (simp add: sorted_map sorted_wrt_iff_nth_less)
qed

lemma slice0_take: "\<exists>n. slice0 xs e = take n xs"
  by (auto simp: slice0_def)

lemma slice0_length: "0 \<le> e \<Longrightarrow> int (length (slice0 xs e)) \<le> e"
  by (simp add: slice0_def)

lemma aggregate_distinct_ids: "distinct (map speechId (aggregate xs k))"
proof -
  obtain n where n: "aggregate xs k = take n (sortByScoreDesc (dedupe xs))"
    using slice0_take unfolding aggregate_def by blast
  have "mset (map speechId (sortByScoreDesc (dedupe xs))) = mset (map speechId (dedupe xs))"
    by (simp add: sortByScoreDesc_mset)
  then have "distinct (map speechId (sortByScoreDesc (dedupe xs)))"
    using dedupe_distinct_ids mset_eq_imp_distinct_iff by blast
  then show ?thesis by (simp add: n take_map [symmetric] del: take_map)
qed

lemma aggregate_sorted: "sorted_wrt (\<lambda>a b. score b \<le> score a) (aggregate xs k)"
proof -
  obtain n where n: "aggregate xs k = take n (sortByScoreDesc (dedupe xs))"
    using slice0_take unfolding aggregate_def by blast
  show ?thesis unfolding n by (rule sorted_wrt_take) (rule sortByScoreDesc_sorted)
qed

lemma map_of_rev_last:
  "map_of (rev (map (\<lambda>r. (f r, r)) xs)) k =
     (if \<exists>r\<in>set xs. f r = k then Some (last (filter (\<lambda>r. f r = k) xs)) else None)"
  by (induction xs rule: rev_induct) auto

lemma distinct_alist_filter:
  "distinct (map fst m) \<Longrightarrow> map_of m k = Some v \<Longrightarrow> filter (\<lambda>p. fst p = k) m = [(k, v)]"
proof (induction m)
  case Nil
  then show ?case by simp
next
  case (Cons p m)
  show ?case
  proof (cases "fst p = k")
    case True
    then have "k \<notin> fst ` set m" using Cons.prems(1) by auto
    then have "filter (\<lambda>p. fst p = k) m = []" by (auto simp: filter_empty_conv)
    with True Cons.prems(2) show ?thesis by (cases p) auto
  next
    case False
    with Cons show ?thesis by auto
  qed
qed

lemma dedupe_last:
  assumes "r \<in> set xs"
  shows "filter (\<lambda>e. speechId e = speechId r) (dedupe xs)
           = [last (filter (\<lambda>e. speechId e = speechId r) xs)]"
proof -
  let ?ps = "map (\<lambda>r. (speechId r, r)) xs"
  let ?k = "speechId r"
  let ?v = "last (filter (\<lambda>e. speechId e = ?k) xs)"
  have "map_of (new_Map ?ps) ?k = Some ?v"
    using assms by (auto simp: new_Map_map_of map_of_rev_last)
  then have f: "filter (\<lambda>p. fst p = ?k) (new_Map ?ps) = [(?k, ?v)]"
    using new_Map_distinct by (rule distinct_alist_filter [rotated])
  have "speechId (snd p) = fst p" if "p \<in> set (new_Map ?ps)" for p
    using that new_Map_entries [of ?ps] by auto
  then have "filter (\<lambda>p. speechId (snd p) = ?k) (new_Map ?ps) = filter (\<lambda>p. fst p = ?k) (new_Map ?ps)"
    by (intro filter_cong) auto
  then show ?thesis
    by (simp add: dedupe_def map_values_def filter_map comp_def f)
qed

lemma sortByScoreDesc_filter:
  "filter P (sortByScoreDesc rs) = sortByScoreDesc (filter P rs)"
  by (simp add: sortByScoreDesc_def filter_sort)

lemma slice0_all: "int (length xs) \<le> e \<Longrightarrow> slice0 xs e = xs"
  by (simp add: slice0_def)

lemma aggregate_last:
  assumes "r \<in> set xs"
  shows "filter (\<lambda>e. speechId e = speechId r) (sortByScoreDesc (dedupe xs))
           = [last (filter (\<lambda>e. speechId e = speechId r) xs)]"
proof -
  have "filter (\<lambda>e. speechId e = speechId r) (sortByScoreDesc (dedupe xs))
          = sortByScoreDesc [last (filter (\<lambda>e. speechId e = speechId r) xs)]"
    by (simp only: sortByScoreDesc_filter dedupe_last [OF assms])
  then show ?thesis by (simp add: sortByScoreDesc_def)
qed

lemma filter_take_singleton:
  "filter P xs = [x] \<Longrightarrow> filter P (take n xs) = [] \<or> filter P (take n xs) = [x]"
proof -
  assume a: "filter P xs = [x]"
  have "filter P xs = filter P (take n xs) @ filter P (drop n xs)"
    by (metis append_take_drop_id filter_append)
  with a show ?thesis by (cases "filter P (take n xs)") auto
qed

lemma dedupe_distinct: "distinct (dedupe xs)"
  using dedupe_distinct_ids [of xs] by (simp add: distinct_map)

lemma map_set_filter_keys:
  "filter (\<lambda>p. P (fst p)) (map_set m k v)
     = (if P k then map_set (filter (\<lambda>p. P (fst p)) m) k v else filter (\<lambda>p. P (fst p)) m)"
  by (induction m) auto

lemma new_Map_snoc: "new_Map (ps @ [p]) = map_set (new_Map ps) (fst p) (snd p)"
  by (simp add: new_Map_def)

lemma new_Map_filter_keys:
  "filter (\<lambda>p. P (fst p)) (new_Map ps) = new_Map (filter (\<lambda>p. P (fst p)) ps)"
  by (induction ps rule: rev_induct) (simp_all add: new_Map_snoc map_set_filter_keys new_Map_def)

lemma dedupe_filter_ids:
  "filter (\<lambda>e. P (speechId e)) (dedupe xs) = dedupe (filter (\<lambda>e. P (speechId e)) xs)"
proof -
  let ?ps = "map (\<lambda>r. (speechId r, r)) xs"
  have k: "speechId (snd p) = fst p" if "p \<in> set (new_Map ?ps)" for p
    using that new_Map_entries [of ?ps] by auto
  have "filter (\<lambda>e. P (speechId e)) (dedupe xs)
          = map snd (filter (\<lambda>p. P (speechId (snd p))) (new_Map ?ps))"
    by (simp add: dedupe_def map_values_def filter_map comp_def)
  also have "filter (\<lambda>p. P (speechId (snd p))) (new_Map ?ps) = filter (\<lambda>p. P (fst p)) (new_Map ?ps)"
    using k by (intro filter_cong) auto
  also have "\<dots> = new_Map (filter (\<lambda>p. P (fst p)) ?ps)" by (rule new_Map_filter_keys)
  also have "filter (\<lambda>p. P (fst p)) ?ps = map (\<lambda>r. (speechId r, r)) (filter (\<lambda>e. P (speechId e)) xs)"
    by (simp add: filter_map comp_def)
  finally show ?thesis by (simp add: dedupe_def map_values_def)
qed

lemma dedupe_hitsWith: "hitsWith X (dedupe xs) = dedupe (hitsWith X xs)"
  unfolding hitsWith_def by (rule dedupe_filter_ids)

lemma map_set_head: "m \<noteq> [] \<Longrightarrow> map_set m k v \<noteq> [] \<and> fst (hd (map_set m k v)) = fst (hd m)"
  by (cases m) auto

lemma foldl_map_set_head:
  "m \<noteq> [] \<Longrightarrow> foldl (\<lambda>m kv. map_set m (fst kv) (snd kv)) m ps \<noteq> []
     \<and> fst (hd (foldl (\<lambda>m kv. map_set m (fst kv) (snd kv)) m ps)) = fst (hd m)"
proof (induction ps arbitrary: m)
  case Nil
  then show ?case by simp
next
  case (Cons p ps)
  let ?m' = "map_set m (fst p) (snd p)"
  have m: "?m' \<noteq> []" and h: "fst (hd ?m') = fst (hd m)"
    using map_set_head [OF Cons.prems, of "fst p" "snd p"] by blast+
  have "foldl (\<lambda>m kv. map_set m (fst kv) (snd kv)) ?m' ps \<noteq> []
     \<and> fst (hd (foldl (\<lambda>m kv. map_set m (fst kv) (snd kv)) ?m' ps)) = fst (hd ?m')"
    using m by (rule Cons.IH)
  then show ?case unfolding h by simp
qed

lemma dedupe_head:
  assumes "xs \<noteq> []"
  shows "dedupe xs \<noteq> []" and "speechId (hd (dedupe xs)) = speechId (hd xs)"
proof -
  obtain r rs where xs: "xs = r # rs" using assms by (cases xs) auto
  define m where "m = foldl (\<lambda>m kv. map_set m (fst kv) (snd kv)) [(speechId r, r)]
              (map (\<lambda>r. (speechId r, r)) rs)"
  have nm: "new_Map (map (\<lambda>r. (speechId r, r)) xs) = m"
    by (simp add: xs new_Map_def m_def)
  have f: "m \<noteq> [] \<and> fst (hd m) = fst (hd [(speechId r, r)])"
    unfolding m_def by (rule foldl_map_set_head) simp
  have ids: "map speechId (dedupe xs) = map fst m"
    using dedupe_ids [of xs] by (simp only: nm)
  have "length (dedupe xs) = length m"
    using arg_cong [OF ids, of length] by simp
  then show ne: "dedupe xs \<noteq> []" using f by auto
  have "speechId (hd (dedupe xs)) = hd (map speechId (dedupe xs))"
    using ne by (simp add: hd_map)
  also have "\<dots> = hd (map fst m)" by (simp only: ids)
  also have "\<dots> = fst (hd m)" using f by (simp add: hd_map)
  also have "\<dots> = speechId r" using f by simp
  finally show "speechId (hd (dedupe xs)) = speechId (hd xs)" by (simp add: xs)
qed

lemma last_concat_common:
  "(\<And>Z. Z \<in> set Zs \<Longrightarrow> Z \<noteq> [] \<Longrightarrow> last Z = v) \<Longrightarrow> concat Zs \<noteq> [] \<Longrightarrow> last (concat Zs) = v"
proof (induction Zs rule: rev_induct)
  case Nil
  then show ?case by simp
next
  case (snoc Z Zs)
  show ?case
  proof (cases "Z = []")
    case True
    with snoc show ?thesis by simp
  next
    case False
    with snoc.prems(1) [of Z] show ?thesis by simp
  qed
qed

lemma hd_concat_common:
  "(\<And>Z. Z \<in> set Zs \<Longrightarrow> Z \<noteq> [] \<Longrightarrow> g (hd Z) = h) \<Longrightarrow> concat Zs \<noteq> [] \<Longrightarrow> g (hd (concat Zs)) = h"
proof (induction Zs)
  case Nil
  then show ?case by simp
next
  case (Cons Z Zs)
  show ?case
  proof (cases "Z = []")
    case True
    with Cons show ?thesis by simp
  next
    case False
    with Cons.prems(1) [of Z] show ?thesis by simp
  qed
qed

lemma hitsWith_concat: "hitsWith X (concat xss) = concat (map (hitsWith X) xss)"
  by (induction xss) (simp_all add: hitsWith_def)

lemma hitsWith_nonempty: "hitsWith X rs \<noteq> [] \<longleftrightarrow> (\<exists>e\<in>set rs. speechId e \<in> X)"
  by (simp add: hitsWith_def filter_empty_conv)

lemma pairwise_order_unique:
  "distinct U \<Longrightarrow> distinct V \<Longrightarrow> set U = set V
     \<Longrightarrow> (\<And>a b. a \<in> set U \<Longrightarrow> b \<in> set U \<Longrightarrow> a \<noteq> b
            \<Longrightarrow> filter (\<lambda>e. e = a \<or> e = b) U = filter (\<lambda>e. e = a \<or> e = b) V)
     \<Longrightarrow> U = V"
proof (induction U arbitrary: V)
  case Nil
  then show ?case by simp
next
  case (Cons a U)
  then obtain b V' where V: "V = b # V'" by (cases V) auto
  have ab: "a = b"
  proof (rule ccontr)
    assume n: "a \<noteq> b"
    have "b \<in> set (a # U)" using Cons.prems(3) V by auto
    with Cons.prems(4) [of a b] n
    have "filter (\<lambda>e. e = a \<or> e = b) (a # U) = filter (\<lambda>e. e = a \<or> e = b) V" by simp
    then show False using n by (simp add: V)
  qed
  have dU: "distinct U" and dV: "distinct V'" using Cons.prems(1,2) V by simp_all
  have s: "set U = set V'" using Cons.prems(1,2,3) V ab by auto
  have "filter (\<lambda>e. e = c \<or> e = d) U = filter (\<lambda>e. e = c \<or> e = d) V'"
    if "c \<in> set U" "d \<in> set U" "c \<noteq> d" for c d
  proof -
    have "a \<noteq> c" "a \<noteq> d" using that Cons.prems(1) by auto
    with Cons.prems(4) [of c d] that show ?thesis by (simp add: V ab [symmetric])
  qed
  with Cons.IH [OF dU dV s] have "U = V'" by blast
  with ab V show ?case by simp
qed

lemma hitsWith_single: "hitsWith {x} rs = filter (\<lambda>e. speechId e = x) rs"
  by (simp add: hitsWith_def)

lemma set_dedupe:
  "set (dedupe zs) = (\<lambda>x. last (hitsWith {x} zs)) ` speechId ` set zs"
proof (intro set_eqI iffI)
  fix e assume e: "e \<in> set (dedupe zs)"
  then have ez: "e \<in> set zs" using dedupe_subset by auto
  have "filter (\<lambda>r. speechId r = speechId e) (dedupe zs)
          = [last (filter (\<lambda>r. speechId r = speechId e) zs)]"
    using ez by (rule dedupe_last)
  moreover have "e \<in> set (filter (\<lambda>r. speechId r = speechId e) (dedupe zs))"
    using e by simp
  ultimately have "e = last (hitsWith {speechId e} zs)" by (simp add: hitsWith_single)
  then show "e \<in> (\<lambda>x. last (hitsWith {x} zs)) ` speechId ` set zs" using ez by blast
next
  fix e assume "e \<in> (\<lambda>x. last (hitsWith {x} zs)) ` speechId ` set zs"
  then obtain r where r: "r \<in> set zs" and e: "e = last (hitsWith {speechId r} zs)" by auto
  have "filter (\<lambda>u. speechId u = speechId r) (dedupe zs)
          = [last (filter (\<lambda>u. speechId u = speechId r) zs)]"
    using r by (rule dedupe_last)
  then have "e \<in> set (filter (\<lambda>u. speechId u = speechId r) (dedupe zs))"
    by (simp add: e hitsWith_single)
  then show "e \<in> set (dedupe zs)" by simp
qed

lemma dedupe_member_ids:
  "a \<in> set (dedupe zs) \<Longrightarrow> e \<in> set (dedupe zs) \<Longrightarrow> speechId e = speechId a \<longleftrightarrow> e = a"
  using dedupe_distinct_ids [of zs] by (auto simp: distinct_map inj_on_def)

lemma dedupe_pair:
  assumes "a \<in> set (dedupe zs)" "b \<in> set (dedupe zs)"
  shows "filter (\<lambda>e. e = a \<or> e = b) (dedupe zs) = dedupe (hitsWith {speechId a, speechId b} zs)"
proof -
  have "filter (\<lambda>e. e = a \<or> e = b) (dedupe zs)
          = filter (\<lambda>e. speechId e \<in> {speechId a, speechId b}) (dedupe zs)"
    using assms dedupe_member_ids [of _ zs] by (intro filter_cong) auto
  also have "\<dots> = dedupe (hitsWith {speechId a, speechId b} zs)"
    using dedupe_hitsWith [of "{speechId a, speechId b}" zs] by (simp add: hitsWith_def)
  finally show ?thesis .
qed

lemma sort_key_same_classes:
  assumes "mset U = mset V"
    and "\<And>c. filter (\<lambda>e. f e = c) U = filter (\<lambda>e. f e = c) V"
  shows "sort_key f U = sort_key f V"
proof (rule properties_for_sort_key)
  show "mset (sort_key f V) = mset U" using assms(1) by simp
  show "sorted (map f (sort_key f V))" by simp
  fix k assume "k \<in> set (sort_key f V)"
  have "filter (\<lambda>x. f k = f x) (sort_key f V) = filter (\<lambda>x. f x = f k) (sort_key f V)"
    by (intro filter_cong) auto
  also have "\<dots> = filter (\<lambda>x. f x = f k) V" by (rule sort_key_stable)
  also have "\<dots> = filter (\<lambda>x. f x = f k) U" using assms(2) [of "f k"] by simp
  also have "\<dots> = filter (\<lambda>x. f k = f x) U" by (intro filter_cong) auto
  finally show "filter (\<lambda>x. f k = f x) (sort_key f V) = filter (\<lambda>x. f k = f x) U" .
qed

lemma two_element_lists:
  assumes "distinct l1" "distinct l2" "set l1 = {a, b}" "set l2 = {a, b}" "a \<noteq> b"
    and "g (hd l1) = g (hd l2)" and "g a \<noteq> g b"
  shows "l1 = l2"
proof -
  have len: "length l = 2" if "distinct l" "set l = {a, b}" for l
    using that assms(5) distinct_card [of l] by simp
  have shape: "l = [a, b] \<or> l = [b, a]" if d: "distinct l" and s: "set l = {a, b}" for l
  proof -
    from len [OF d s] obtain p q where l: "l = [p, q]"
      by (cases l; cases "tl l") auto
    with d s show ?thesis by auto
  qed
  from shape [OF assms(1,3)] shape [OF assms(2,4)] assms(6,7) show ?thesis by auto
qed

lemma member_hitsWith: "a \<in> set L \<Longrightarrow> speechId a \<in> X \<Longrightarrow> hitsWith X L \<noteq> []"
  by (auto simp: hitsWith_nonempty)

lemma last_hit_common:
  assumes A: "sameLastHit xss" and s: "set zss = set xss"
    and L0: "L0 \<in> set xss" and a0: "a0 \<in> set L0"
  shows "last (hitsWith {speechId a0} (concat zss)) = last (hitsWith {speechId a0} L0)"
proof -
  let ?X = "{speechId a0}"
  have common: "last Z = last (hitsWith ?X L0)"
    if Z: "Z \<in> set (map (hitsWith ?X) zss)" and ne: "Z \<noteq> []" for Z
  proof -
    from Z s obtain L where L: "L \<in> set xss" and ZL: "Z = hitsWith ?X L" by auto
    from ne ZL obtain b where b: "b \<in> set L" "speechId b = speechId a0"
      by (auto simp: hitsWith_nonempty)
    from A L L0 b(1) a0 b(2)
    have "last (hitsWith {speechId b} L) = last (hitsWith {speechId a0} L0)"
      unfolding sameLastHit_def by blast
    then show ?thesis by (simp add: ZL b(2))
  qed
  have "hitsWith ?X L0 \<in> set (map (hitsWith ?X) zss)" using L0 s by simp
  moreover have "hitsWith ?X L0 \<noteq> []" using a0 by (rule member_hitsWith) simp
  ultimately have ne: "concat (map (hitsWith ?X) zss) \<noteq> []" by auto
  have "last (concat (map (hitsWith ?X) zss)) = last (hitsWith ?X L0)"
    using common ne by (rule last_concat_common)
  then show ?thesis by (simp add: hitsWith_concat)
qed

lemma tie_head_common:
  assumes B: "sameTieOrder xss" and s: "set zss = set xss"
    and a: "a \<in> set (dedupe (concat xss))" and b: "b \<in> set (dedupe (concat xss))"
    and ab: "speechId a \<noteq> speechId b" "score a = score b"
    and L0: "L0 \<in> set xss" and ne0: "hitsWith {speechId a, speechId b} L0 \<noteq> []"
  shows "speechId (hd (hitsWith {speechId a, speechId b} (concat zss)))
           = speechId (hd (hitsWith {speechId a, speechId b} L0))"
proof -
  let ?X = "{speechId a, speechId b}"
  have common: "speechId (hd Z) = speechId (hd (hitsWith ?X L0))"
    if Z: "Z \<in> set (map (hitsWith ?X) zss)" and ne: "Z \<noteq> []" for Z
  proof -
    from Z s obtain L where L: "L \<in> set xss" and ZL: "Z = hitsWith ?X L" by auto
    from B a b ab L L0 ne ne0 ZL show ?thesis
      unfolding sameTieOrder_def by blast
  qed
  have "hitsWith ?X L0 \<in> set (map (hitsWith ?X) zss)" using L0 s by simp
  with ne0 have ne: "concat (map (hitsWith ?X) zss) \<noteq> []" by auto
  have "speechId (hd (concat (map (hitsWith ?X) zss))) = speechId (hd (hitsWith ?X L0))"
    using common ne by (rule hd_concat_common)
  then show ?thesis by (simp add: hitsWith_concat)
qed

lemma dedupe_pair_set:
  assumes "a \<in> set (dedupe zs)" "b \<in> set (dedupe zs)"
  shows "set (dedupe (hitsWith {speechId a, speechId b} zs)) = {a, b}"
proof -
  have "set (filter (\<lambda>e. e = a \<or> e = b) (dedupe zs)) = {a, b}" using assms by auto
  then show ?thesis by (simp only: dedupe_pair [OF assms])
qed

lemma order_independent_if:
  assumes A: "sameLastHit xss" and B: "sameTieOrder xss" and p: "mset yss = mset xss"
  shows "aggregate (concat yss) k = aggregate (concat xss) k"
proof -
  let ?xs = "concat xss" and ?ys = "concat yss"
  let ?f = "\<lambda>r. - score r"
  have s: "set yss = set xss" using p by (rule mset_eq_setD)
  have members: "set ?ys = set ?xs" using s by simp
  have last_eq: "last (hitsWith {x} ?ys) = last (hitsWith {x} ?xs)"
    if "x \<in> speechId ` set ?xs" for x
  proof -
    from that obtain L0 a0 where L0: "L0 \<in> set xss" "a0 \<in> set L0" "x = speechId a0" by auto
    have "last (hitsWith {speechId a0} ?ys) = last (hitsWith {speechId a0} L0)"
      using A s L0(1,2) by (rule last_hit_common)
    moreover have "last (hitsWith {speechId a0} ?xs) = last (hitsWith {speechId a0} L0)"
      using A refl L0(1,2) by (rule last_hit_common)
    ultimately show ?thesis by (simp add: L0(3))
  qed
  have sets: "set (dedupe ?ys) = set (dedupe ?xs)"
    unfolding set_dedupe members using last_eq by (intro image_cong refl) simp
  have msets: "mset (dedupe ?ys) = mset (dedupe ?xs)"
    using sets dedupe_distinct by (simp add: set_eq_iff_mset_eq_distinct [symmetric])
  have classes: "filter (\<lambda>e. ?f e = c) (dedupe ?ys) = filter (\<lambda>e. ?f e = c) (dedupe ?xs)" for c
  proof (rule pairwise_order_unique)
    show "distinct (filter (\<lambda>e. ?f e = c) (dedupe ?ys))"
      and "distinct (filter (\<lambda>e. ?f e = c) (dedupe ?xs))"
      using dedupe_distinct by simp_all
    show "set (filter (\<lambda>e. ?f e = c) (dedupe ?ys)) = set (filter (\<lambda>e. ?f e = c) (dedupe ?xs))"
      using sets by simp
    fix a b
    assume a': "a \<in> set (filter (\<lambda>e. ?f e = c) (dedupe ?ys))"
      and b': "b \<in> set (filter (\<lambda>e. ?f e = c) (dedupe ?ys))" and n: "a \<noteq> b"
    then have ay: "a \<in> set (dedupe ?ys)" and by': "b \<in> set (dedupe ?ys)"
      and ca: "?f a = c" and cb: "?f b = c" by simp_all
    have ax: "a \<in> set (dedupe ?xs)" and bx: "b \<in> set (dedupe ?xs)" using ay by' sets by simp_all
    let ?X = "{speechId a, speechId b}"
    have ids: "speechId a \<noteq> speechId b" using dedupe_member_ids [OF ax bx] n by auto
    have tie: "score a = score b" using ca cb by simp
    have pair: "filter (\<lambda>e. e = a \<or> e = b) (filter (\<lambda>e. ?f e = c) (dedupe zs))
                  = dedupe (hitsWith ?X zs)"
      if "a \<in> set (dedupe zs)" "b \<in> set (dedupe zs)" for zs
    proof -
      have "filter (\<lambda>e. e = a \<or> e = b) (filter (\<lambda>e. ?f e = c) (dedupe zs))
              = filter (\<lambda>e. e = a \<or> e = b) (dedupe zs)"
        unfolding filter_filter using ca cb by (intro filter_cong) auto
      then show ?thesis by (simp only: dedupe_pair [OF that])
    qed
    have "a \<in> set ?xs" using ax dedupe_subset [of ?xs] by blast
    then obtain L0 where L0: "L0 \<in> set xss" "a \<in> set L0" by auto
    have ne0: "hitsWith ?X L0 \<noteq> []" using L0(2) by (rule member_hitsWith) simp
    have hy: "speechId (hd (hitsWith ?X ?ys)) = speechId (hd (hitsWith ?X L0))"
      using B s ax bx ids tie L0(1) ne0 by (rule tie_head_common)
    have hx: "speechId (hd (hitsWith ?X ?xs)) = speechId (hd (hitsWith ?X L0))"
      using B refl ax bx ids tie L0(1) ne0 by (rule tie_head_common)
    have nex: "hitsWith ?X ?xs \<noteq> []" using L0 by (auto simp: hitsWith_nonempty)
    have ney: "hitsWith ?X ?ys \<noteq> []" using L0 s by (auto simp: hitsWith_nonempty)
    have heads: "speechId (hd (dedupe (hitsWith ?X ?ys))) = speechId (hd (dedupe (hitsWith ?X ?xs)))"
      using dedupe_head(2) [OF nex] dedupe_head(2) [OF ney] hx hy by simp
    have "dedupe (hitsWith ?X ?ys) = dedupe (hitsWith ?X ?xs)"
      using dedupe_distinct dedupe_distinct dedupe_pair_set [OF ay by']
        dedupe_pair_set [OF ax bx] n heads ids
      by (rule two_element_lists)
    then show "filter (\<lambda>e. e = a \<or> e = b) (filter (\<lambda>e. ?f e = c) (dedupe ?ys))
             = filter (\<lambda>e. e = a \<or> e = b) (filter (\<lambda>e. ?f e = c) (dedupe ?xs))"
      by (simp only: pair [OF ay by'] pair [OF ax bx])
  qed
  have "sort_key ?f (dedupe ?ys) = sort_key ?f (dedupe ?xs)"
    using msets classes by (rule sort_key_same_classes)
  then show ?thesis by (simp add: aggregate_def sortByScoreDesc_def)
qed

lemma aggregate_untruncated:
  "aggregate zs (int (length (dedupe zs)) + int n) = sortByScoreDesc (dedupe zs)"
  unfolding aggregate_def by (rule slice0_all) (simp add: sortByScoreDesc_def)

lemma order_independent_sorted:
  assumes H: "\<And>yss k. mset yss = mset xss \<Longrightarrow> aggregate (concat yss) k = aggregate (concat xss) k"
    and p: "mset yss = mset xss"
  shows "sortByScoreDesc (dedupe (concat yss)) = sortByScoreDesc (dedupe (concat xss))"
proof -
  let ?xs = "concat xss" and ?ys = "concat yss"
  let ?k = "int (length (dedupe ?ys)) + int (length (dedupe ?xs))"
  have "aggregate ?ys ?k = sortByScoreDesc (dedupe ?ys)" by (rule aggregate_untruncated)
  moreover have "aggregate ?xs ?k = sortByScoreDesc (dedupe ?xs)"
    using aggregate_untruncated [of ?xs "length (dedupe ?ys)"] by (simp add: add.commute)
  ultimately show ?thesis using H [OF p, of ?k] by simp
qed

lemma mset_move_last: "L \<in> set xss \<Longrightarrow> mset (remove1 L xss @ [L]) = mset xss"
  by simp

lemma mset_move_first: "L \<in> set xss \<Longrightarrow> mset (L # remove1 L xss) = mset xss"
  by simp

lemma order_independent_sameLastHit:
  assumes H: "\<And>yss k. mset yss = mset xss \<Longrightarrow> aggregate (concat yss) k = aggregate (concat xss) k"
  shows "sameLastHit xss"
  unfolding sameLastHit_def
proof (intro ballI impI)
  fix L M a b
  assume L: "L \<in> set xss" and M: "M \<in> set xss" and a: "a \<in> set L" and b: "b \<in> set M"
    and ab: "speechId a = speechId b"
  have kept: "filter (\<lambda>e. speechId e = speechId c) (sortByScoreDesc (dedupe (concat xss)))
                = [last (hitsWith {speechId c} N)]"
    if N: "N \<in> set xss" and c: "c \<in> set N" for N c
  proof -
    let ?zs = "concat (remove1 N xss @ [N])"
    have "c \<in> set ?zs" using c by simp
    then have "filter (\<lambda>e. speechId e = speechId c) (sortByScoreDesc (dedupe ?zs))
                 = [last (filter (\<lambda>e. speechId e = speechId c) ?zs)]"
      by (rule aggregate_last)
    moreover have "filter (\<lambda>e. speechId e = speechId c) N \<noteq> []"
      using c by (auto simp: filter_empty_conv)
    then have "last (filter (\<lambda>e. speechId e = speechId c) ?zs)
                 = last (filter (\<lambda>e. speechId e = speechId c) N)"
      by simp
    moreover have "sortByScoreDesc (dedupe ?zs) = sortByScoreDesc (dedupe (concat xss))"
      using H mset_move_last [OF N] by (rule order_independent_sorted)
    ultimately show ?thesis by (simp add: hitsWith_single)
  qed
  from kept [OF L a] kept [OF M b] ab
  show "last (hitsWith {speechId a} L) = last (hitsWith {speechId b} M)" by simp
qed

lemma order_independent_sameTieOrder:
  assumes H: "\<And>yss k. mset yss = mset xss \<Longrightarrow> aggregate (concat yss) k = aggregate (concat xss) k"
  shows "sameTieOrder xss"
  unfolding sameTieOrder_def
proof (intro ballI impI)
  fix a b :: SpeechResult and L M :: "SpeechResult list"
  let ?xs = "concat xss"
  let ?X = "{speechId a, speechId b}"
  let ?f = "\<lambda>r. - score r"
  assume a: "a \<in> set (dedupe ?xs)" and b: "b \<in> set (dedupe ?xs)"
    and ab: "speechId a \<noteq> speechId b \<and> score a = score b"
    and L: "L \<in> set xss" and M: "M \<in> set xss"
    and ne: "hitsWith ?X L \<noteq> [] \<and> hitsWith ?X M \<noteq> []"
  have first: "speechId (hd (dedupe (hitsWith ?X ?xs))) = speechId (hd (hitsWith ?X N))"
    if N: "N \<in> set xss" and neN: "hitsWith ?X N \<noteq> []" for N
  proof -
    let ?zs = "concat (N # remove1 N xss)"
    have srt: "sortByScoreDesc (dedupe ?zs) = sortByScoreDesc (dedupe ?xs)"
      using H mset_move_first [OF N] by (rule order_independent_sorted)
    have "mset (dedupe ?zs) = mset (dedupe ?xs)"
      using arg_cong [OF srt, of mset] by (simp add: sortByScoreDesc_def)
    then have sets: "set (dedupe ?zs) = set (dedupe ?xs)" by (rule mset_eq_setD)
    have az: "a \<in> set (dedupe ?zs)" and bz: "b \<in> set (dedupe ?zs)" using a b sets by simp_all
    have cls: "filter (\<lambda>e. ?f e = ?f a) (dedupe ws)
                 = filter (\<lambda>e. ?f e = ?f a) (sortByScoreDesc (dedupe ws))" for ws
      unfolding sortByScoreDesc_def by (rule sort_key_stable [symmetric])
    have pair: "dedupe (hitsWith ?X ws)
                  = filter (\<lambda>e. e = a \<or> e = b) (filter (\<lambda>e. ?f e = ?f a) (sortByScoreDesc (dedupe ws)))"
      if w: "a \<in> set (dedupe ws)" "b \<in> set (dedupe ws)" for ws
    proof -
      have "filter (\<lambda>e. e = a \<or> e = b) (filter (\<lambda>e. ?f e = ?f a) (dedupe ws))
              = filter (\<lambda>e. e = a \<or> e = b) (dedupe ws)"
        unfolding filter_filter using ab by (intro filter_cong) auto
      then show ?thesis by (simp only: cls [symmetric] dedupe_pair [OF w])
    qed
    have eq: "dedupe (hitsWith ?X ?zs) = dedupe (hitsWith ?X ?xs)"
      by (simp only: pair [OF az bz] pair [OF a b] srt)
    have "hitsWith ?X ?zs = hitsWith ?X N @ hitsWith ?X (concat (remove1 N xss))"
      by (simp add: hitsWith_def)
    then have hdz: "hd (hitsWith ?X ?zs) = hd (hitsWith ?X N)" and nez: "hitsWith ?X ?zs \<noteq> []"
      using neN by simp_all
    have "speechId (hd (dedupe (hitsWith ?X ?zs))) = speechId (hd (hitsWith ?X ?zs))"
      using nez by (rule dedupe_head(2))
    then show ?thesis by (simp only: eq hdz)
  qed
  from first [OF L] first [OF M] ne
  show "speechId (hd (hitsWith ?X L)) = speechId (hd (hitsWith ?X M))" by simp
qed


section \<open>Claims about the aggregation\<close>

lemmas agg_eval =
  aggregate_def dedupe_def new_Map_def map_values_def sortByScoreDesc_def slice0_def
  hit_def ascii_def

text \<open>
  Claim C2, as stated, fails: when two sub-queries return the same \<open>speechId\<close> with the
  scores 0.9 and then 0.75, the entry kept is the one seen last, with score 0.75.
\<close>

theorem C2_counterexample:
  "aggregate (concat [[hit ''S1'' 0.9], [hit ''S1'' 0.75]]) 5 = [hit ''S1'' 0.75]
   \<and> score (hd (aggregate (concat [[hit ''S1'' 0.9], [hit ''S1'' 0.75]]) 5)) \<noteq> 0.9"
  by (simp add: agg_eval)

text \<open>
  Claim C2, amended. For every hit \<open>r\<close> of the concatenated sub-query results, the
  deduplicated list holds exactly one entry with the \<open>speechId\<close> of \<open>r\<close>, and it is the
  last hit with that id in concatenation order. The output of the aggregation holds
  that entry or, if the truncation removed it, no entry with that id; it holds it
  whenever \<open>topK\<close> is at least the number of distinct ids.
\<close>

theorem C2_last_seen_wins:
  assumes "r \<in> set (concat perSubquery)"
  shows "filter (\<lambda>e. speechId e = speechId r) (dedupe (concat perSubquery))
           = [last (filter (\<lambda>e. speechId e = speechId r) (concat perSubquery))]
         \<and> (filter (\<lambda>e. speechId e = speechId r) (aggregate (concat perSubquery) topK) = []
            \<or> filter (\<lambda>e. speechId e = speechId r) (aggregate (concat perSubquery) topK)
                = [last (filter (\<lambda>e. speechId e = speechId r) (concat perSubquery))])
         \<and> (int (length (dedupe (concat perSubquery))) \<le> topK \<longrightarrow>
              filter (\<lambda>e. speechId e = speechId r) (aggregate (concat perSubquery) topK)
                = [last (filter (\<lambda>e. speechId e = speechId r) (concat perSubquery))])"
proof (intro conjI impI)
  let ?xs = "concat perSubquery"
  let ?P = "\<lambda>e. speechId e = speechId r"
  show "filter ?P (dedupe ?xs) = [last (filter ?P ?xs)]"
    using assms by (rule dedupe_last)
  have srt: "filter ?P (sortByScoreDesc (dedupe ?xs)) = [last (filter ?P ?xs)]"
    using assms by (rule aggregate_last)
  obtain n where n: "aggregate ?xs topK = take n (sortByScoreDesc (dedupe ?xs))"
    using slice0_take unfolding aggregate_def by blast
  show "filter ?P (aggregate ?xs topK) = [] \<or> filter ?P (aggregate ?xs topK) = [last (filter ?P ?xs)]"
    unfolding n using srt by (rule filter_take_singleton)
  assume "int (length (dedupe ?xs)) \<le> topK"
  then have "int (length (sortByScoreDesc (dedupe ?xs))) \<le> topK"
    by (simp add: sortByScoreDesc_def)
  then have "aggregate ?xs topK = sortByScoreDesc (dedupe ?xs)"
    unfolding aggregate_def by (rule slice0_all)
  with srt show "filter ?P (aggregate ?xs topK) = [last (filter ?P ?xs)]" by simp
qed

theorem C2_last_seen_wins_witness:
  "hit ''S1'' 0.9 \<in> set (concat [[hit ''S1'' 0.9, hit ''S2'' 0.8], [hit ''S1'' 0.75]])
   \<and> int (length (dedupe (concat [[hit ''S1'' 0.9, hit ''S2'' 0.8], [hit ''S1'' 0.75]]))) \<le> 5
   \<and> filter (\<lambda>e. speechId e = ascii ''S1'')
        (aggregate (concat [[hit ''S1'' 0.9, hit ''S2'' 0.8], [hit ''S1'' 0.75]]) 5)
       = [hit ''S1'' 0.75]"
proof -
  have m: "hit ''S1'' 0.9 \<in> set (concat [[hit ''S1'' 0.9, hit ''S2'' 0.8], [hit ''S1'' 0.75]])"
    by simp
  have l: "int (length (dedupe (concat [[hit ''S1'' 0.9, hit ''S2'' 0.8], [hit ''S1'' 0.75]]))) \<le> 5"
    by (simp add: agg_eval)
  have "speechId (hit ''S1'' 0.9) = ascii ''S1''" by (simp add: hit_def)
  moreover have "last (filter (\<lambda>e. speechId e = ascii ''S1'')
          (concat [[hit ''S1'' 0.9, hit ''S2'' 0.8], [hit ''S1'' 0.75]])) = hit ''S1'' 0.75"
    by (simp add: hit_def ascii_def)
  ultimately show ?thesis
    using m l C2_last_seen_wins [OF m, of 5] by simp
qed


text \<open>
  Claim C3. \<open>topK\<close> is the number of results asked for, a natural number. For every
  collection of sub-query results and every \<open>topK\<close>, the output of the aggregation has
  no two entries with the same \<open>speechId\<close>, is sorted by descending score, and has at
  most \<open>topK\<close> entries.
\<close>

theorem C3_aggregate_output:
  "distinct (map speechId (aggregate (concat perSubquery) (int topK)))
   \<and> sorted_wrt (\<lambda>a b. score b \<le> score a) (aggregate (concat perSubquery) (int topK))
   \<and> length (aggregate (concat perSubquery) (int topK)) \<le> topK"
proof (intro conjI)
  show "distinct (map speechId (aggregate (concat perSubquery) (int topK)))"
    by (rule aggregate_distinct_ids)
  show "sorted_wrt (\<lambda>a b. score b \<le> score a) (aggregate (concat perSubquery) (int topK))"
    by (rule aggregate_sorted)
  have "int (length (aggregate (concat perSubquery) (int topK))) \<le> int topK"
    unfolding aggregate_def by (rule slice0_length) simp
  then show "length (aggregate (concat perSubquery) (int topK)) \<le> topK" by simp
qed

theorem C3_aggregate_output_witness:
  "aggregate (concat [[hit ''S1'' 0.4, hit ''S2'' 0.8], [hit ''S3'' 0.6, hit ''S1'' 0.7]]) (int 2)
       = [hit ''S2'' 0.8, hit ''S1'' 0.7]
   \<and> distinct (map speechId
        (aggregate (concat [[hit ''S1'' 0.4, hit ''S2'' 0.8], [hit ''S3'' 0.6, hit ''S1'' 0.7]])
           (int 2)))
   \<and> length
        (aggregate (concat [[hit ''S1'' 0.4, hit ''S2'' 0.8], [hit ''S3'' 0.6, hit ''S1'' 0.7]])
           (int 2)) \<le> 2"
proof -
  have "aggregate (concat [[hit ''S1'' 0.4, hit ''S2'' 0.8], [hit ''S3'' 0.6, hit ''S1'' 0.7]]) (int 2)
       = [hit ''S2'' 0.8, hit ''S1'' 0.7]"
    by (simp add: agg_eval)
  then show ?thesis
    using C3_aggregate_output [of "[[hit ''S1'' 0.4, hit ''S2'' 0.8], [hit ''S3'' 0.6, hit ''S1'' 0.7]]" 2]
    by simp
qed

text \<open>
  Claim C6, as stated, fails: the two arrival orders of the same two sub-query results
  give different outputs, since the hit kept for a \<open>speechId\<close> is the last to arrive.
\<close>

theorem C6_counterexample:
  "aggregate (concat [[hit ''S1'' 0.9], [hit ''S1'' 0.75]]) 5
     \<noteq> aggregate (concat [[hit ''S1'' 0.75], [hit ''S1'' 0.9]]) 5"
  by (simp add: agg_eval)

text \<open>Equal scores alone also make the output depend on the arrival order.\<close>

lemma aggregate_tie_depends_on_order:
  "aggregate (concat [[hit ''S1'' 0.5], [hit ''S2'' 0.5]]) 5
     \<noteq> aggregate (concat [[hit ''S2'' 0.5], [hit ''S1'' 0.5]]) 5"
  by (simp add: agg_eval)

text \<open>
  Claim C6, amended. The output of the aggregation is the same for every order in which
  the sub-query results arrive and every \<open>topK\<close> if and only if (a) whenever two sub-query
  results contain the same \<open>speechId\<close>, the last hit with that id is the same hit in both
  (\<open>sameLastHit\<close>), and (b) whenever two hits kept by the deduplication have different
  ids and equal scores, all the sub-query results that contain one of the two ids have
  the same one of the two first (\<open>sameTieOrder\<close>).
\<close>

theorem C6_order_independent_iff:
  "(\<forall>arrived topK. mset arrived = mset perSubquery \<longrightarrow>
       aggregate (concat arrived) topK = aggregate (concat perSubquery) topK)
   \<longleftrightarrow> sameLastHit perSubquery \<and> sameTieOrder perSubquery"
proof
  assume H: "\<forall>arrived topK. mset arrived = mset perSubquery \<longrightarrow>
       aggregate (concat arrived) topK = aggregate (concat perSubquery) topK"
  then have H': "aggregate (concat yss) k = aggregate (concat perSubquery) k"
    if "mset yss = mset perSubquery" for yss k
    using that by blast
  show "sameLastHit perSubquery \<and> sameTieOrder perSubquery"
    using order_independent_sameLastHit [of perSubquery]
      order_independent_sameTieOrder [of perSubquery] H' by blast
next
  assume "sameLastHit perSubquery \<and> sameTieOrder perSubquery"
  then show "\<forall>arrived topK. mset arrived = mset perSubquery \<longrightarrow>
       aggregate (concat arrived) topK = aggregate (concat perSubquery) topK"
    using order_independent_if by blast
qed

theorem C6_order_independent_iff_witness:
  "sameLastHit [[hit ''S1'' 0.5, hit ''S2'' 0.5], [hit ''S3'' 0.9, hit ''S1'' 0.5]]
   \<and> sameTieOrder [[hit ''S1'' 0.5, hit ''S2'' 0.5], [hit ''S3'' 0.9, hit ''S1'' 0.5]]
   \<and> mset [[hit ''S3'' 0.9, hit ''S1'' 0.5], [hit ''S1'' 0.5, hit ''S2'' 0.5]]
       = mset [[hit ''S1'' 0.5, hit ''S2'' 0.5], [hit ''S3'' 0.9, hit ''S1'' 0.5]]
   \<and> aggregate (concat [[hit ''S3'' 0.9, hit ''S1'' 0.5], [hit ''S1'' 0.5, hit ''S2'' 0.5]]) 2
       = aggregate (concat [[hit ''S1'' 0.5, hit ''S2'' 0.5], [hit ''S3'' 0.9, hit ''S1'' 0.5]]) 2"
proof -
  let ?given = "[[hit ''S1'' 0.5, hit ''S2'' 0.5], [hit ''S3'' 0.9, hit ''S1'' 0.5]]"
  let ?arrived = "[[hit ''S3'' 0.9, hit ''S1'' 0.5], [hit ''S1'' 0.5, hit ''S2'' 0.5]]"
  have a: "sameLastHit ?given"
    by (simp add: sameLastHit_def hitsWith_def hit_def ascii_def)
  have d: "dedupe (concat ?given) = [hit ''S1'' 0.5, hit ''S2'' 0.5, hit ''S3'' 0.9]"
    by (simp add: agg_eval)
  have b: "sameTieOrder ?given"
    unfolding sameTieOrder_def d by (simp add: hitsWith_def hit_def ascii_def)
  have p: "mset ?arrived = mset ?given" by (simp add: add.commute)
  have "aggregate (concat ?arrived) 2 = aggregate (concat ?given) 2"
    using C6_order_independent_iff [of ?given] a b p by blast
  with a b p show ?thesis by blast
qed

section \<open>Claims about the structured filter and the similarity search\<close>

lemma applyStructuredFilter_total:
  "\<exists>ids. applyStructuredFilter (Some db) ents = Inr ids"
  by (auto simp: applyStructuredFilter_def Let_def split: sum.splits)

lemmas filter_eval =
  applyStructuredFilter_def filterConditions_def addNameConditions_def addDateCondition_def
  noEntities_def examplePlan_def exampleRow_def Let_def

text \<open>
  Claim C1. In every pass of the loop the request sent to the store is decided by
  \<open>enabledStrategies\<close> and the candidate ids that the structured filter returned: with
  \<open>structured\<close> enabled and a non-empty list the search is restricted to those ids with
  ceiling 0.8; with \<open>structured\<close> enabled and an empty list it is unrestricted with
  ceiling 0.6; without \<open>structured\<close> it is unrestricted with ceiling 0.7. An empty
  list never restricts the search.
\<close>

theorem C1_threshold_selection:
  assumes "applyStructuredFilter (Some db) (entities plan) = Inr candidateIds"
  shows "\<exists>req. searchRequest db plan topK queryEmbedding = Inr req
           \<and> distanceCeiling (fst req)
               = Some (if ascii ''structured'' \<in> set (enabledStrategies plan)
                       then (if candidateIds \<noteq> [] then 0.8 else 0.6) else 0.7)
           \<and> idRestriction req
               = (if ascii ''structured'' \<in> set (enabledStrategies plan) \<and> candidateIds \<noteq> []
                  then Some candidateIds else None)"
  using assms by (simp add: searchRequest_def distanceCeiling_def idRestriction_def)

theorem C1_threshold_selection_witness:
  "applyStructuredFilter (Some exampleStore)
      (entities (examplePlan [''a''] [''vector'', ''structured'']
         (noEntities\<lparr>speakers := Some [ascii ''Kishida'']\<rparr>))) = Inr [ascii ''S7'']
   \<and> (\<exists>req. searchRequest exampleStore
          (examplePlan [''a''] [''vector'', ''structured'']
             (noEntities\<lparr>speakers := Some [ascii ''Kishida'']\<rparr>)) 5 [2] = Inr req
        \<and> distanceCeiling (fst req) = Some 0.8
        \<and> idRestriction req = Some [ascii ''S7''])"
proof -
  let ?plan = "examplePlan [''a''] [''vector'', ''structured'']
                 (noEntities\<lparr>speakers := Some [ascii ''Kishida'']\<rparr>)"
  have f: "applyStructuredFilter (Some exampleStore) (entities ?plan) = Inr [ascii ''S7'']"
    by (simp add: filter_eval exampleStore_def)
  have s: "ascii ''structured'' \<in> set (enabledStrategies ?plan)"
    by (simp add: examplePlan_def)
  show ?thesis
    using f s C1_threshold_selection [OF f, of 5 "[2]"] by simp
qed

lemma searchLoop_aborts:
  "q \<in> set qs \<Longrightarrow> searchSubquery db emb pf plan topK q = Inl e
     \<Longrightarrow> \<exists>e'. searchLoop db emb pf plan topK qs acc = Inl e'"
proof (induction qs arbitrary: acc)
  case Nil
  then show ?case by simp
next
  case (Cons a qs)
  show ?case
  proof (cases "searchSubquery db emb pf plan topK a")
    case (Inl e0)
    then show ?thesis by simp
  next
    case (Inr rs)
    with Cons.prems have "q \<in> set qs" by auto
    then show ?thesis using Cons.IH Cons.prems(2) Inr by simp
  qed
qed

text \<open>
  Claim C5, as stated, fails: with two sub-queries, a store failure in the search of the
  first makes \<open>searchWithPlan\<close> fail, although the search of the second alone succeeds.
\<close>

theorem C5_counterexample:
  "searchWithPlan exampleServices (examplePlan [''a'', ''b''] [''vector''] noEntities) 5
     = Inl (ServiceFailure 1)
   \<and> searchSubquery exampleStore exampleEmbedding exampleParseFloat
       (examplePlan [''a'', ''b''] [''vector''] noEntities) 5 (ascii ''b'')
     = Inr [hit ''S2'' 0.5\<lparr>party := ascii ''?''\<rparr>]"
  by (simp add: searchWithPlan_def exampleServices_def searchSubquery_def searchRequest_def
        expandedQuery_def exampleEmbedding_def exampleStore_def exampleParseFloat_def
        toSpeechResult_def orDefault_def hit_def filter_eval ascii_def)

text \<open>
  Claim C5, amended. A failure of the store query in the similarity search of any
  sub-query of the plan aborts the search: \<open>searchWithPlan\<close> re-throws and returns no
  results.
\<close>

theorem C5_search_failure_aborts:
  assumes "dbPool sv = Some db" and "embedModel sv = Some getTextEmbedding"
    and "subquery \<in> set (subqueries plan)"
    and "getTextEmbedding (expandedQuery subquery (entities plan)) = Inr queryEmbedding"
    and "searchRequest db plan topK queryEmbedding = Inr req"
    and "db (fst req) (snd req) = Inl e"
  shows "\<exists>e'. searchWithPlan sv plan topK = Inl e'"
proof -
  have "searchSubquery db getTextEmbedding (parseFloat sv) plan topK subquery = Inl e"
    using assms(4,5,6) by (simp add: searchSubquery_def)
  with assms(3) obtain e' where
    "searchLoop db getTextEmbedding (parseFloat sv) plan topK (subqueries plan) [] = Inl e'"
    using searchLoop_aborts by blast
  then show ?thesis using assms(1,2) by (simp add: searchWithPlan_def)
qed

theorem C5_search_failure_aborts_witness:
  "dbPool exampleServices = Some exampleStore
   \<and> embedModel exampleServices = Some exampleEmbedding
   \<and> ascii ''a'' \<in> set (subqueries (examplePlan [''b'', ''a''] [''vector''] noEntities))
   \<and> exampleEmbedding (expandedQuery (ascii ''a'')
         (entities (examplePlan [''b'', ''a''] [''vector''] noEntities))) = Inr [1]
   \<and> searchRequest exampleStore (examplePlan [''b'', ''a''] [''vector''] noEntities) 5 [1]
       = Inr (SelectSimilar None 0.7 2, [PVector [1], PNumber 5])
   \<and> exampleStore (SelectSimilar None 0.7 2) [PVector [1], PNumber 5] = Inl (ServiceFailure 1)
   \<and> (\<exists>e'. searchWithPlan exampleServices (examplePlan [''b'', ''a''] [''vector''] noEntities) 5
              = Inl e')"
proof -
  let ?plan = "examplePlan [''b'', ''a''] [''vector''] noEntities"
  have a1: "dbPool exampleServices = Some exampleStore"
    and a2: "embedModel exampleServices = Some exampleEmbedding"
    by (simp_all add: exampleServices_def)
  have a3: "ascii ''a'' \<in> set (subqueries ?plan)" by (simp add: examplePlan_def)
  have a4: "exampleEmbedding (expandedQuery (ascii ''a'') (entities ?plan)) = Inr [1]"
    by (simp add: exampleEmbedding_def expandedQuery_def examplePlan_def noEntities_def)
  have a5: "searchRequest exampleStore ?plan 5 [1]
              = Inr (SelectSimilar None 0.7 2, [PVector [1], PNumber 5])"
    by (simp add: searchRequest_def examplePlan_def ascii_def)
  have a6: "exampleStore (fst (SelectSimilar None 0.7 2, [PVector [1], PNumber 5]))
              (snd (SelectSimilar None 0.7 2, [PVector [1], PNumber 5])) = Inl (ServiceFailure 1)"
    by (simp add: exampleStore_def)
  show ?thesis
    using a1 a2 a3 a4 a5 a6 C5_search_failure_aborts [OF a1 a2 a3 a4 a5 a6] by simp
qed

text \<open>
  Claim C8. If the store query of the structured filter fails, the filter does not
  throw: it returns the empty list, and a sub-query search with \<open>structured\<close> enabled
  then runs the unrestricted similarity search (ceiling 0.6).
\<close>

theorem C8_filter_failure_degrades:
  assumes "db (SelectCandidates (fst (filterConditions (entities plan))))
              (snd (filterConditions (entities plan))) = Inl e"
  shows "applyStructuredFilter (Some db) (entities plan) = Inr []
         \<and> (ascii ''structured'' \<in> set (enabledStrategies plan) \<longrightarrow>
              searchRequest db plan topK queryEmbedding
                = Inr (SelectSimilar None 0.6 2, [PVector queryEmbedding, PNumber topK]))"
  using assms by (simp add: searchRequest_def applyStructuredFilter_def Let_def)

theorem C8_filter_failure_degrades_witness:
  "failingFilterStore
      (SelectCandidates (fst (filterConditions (entities
         (examplePlan [''a''] [''vector'', ''structured'']
            (noEntities\<lparr>speakers := Some [ascii ''Kishida'']\<rparr>))))))
      (snd (filterConditions (entities
         (examplePlan [''a''] [''vector'', ''structured'']
            (noEntities\<lparr>speakers := Some [ascii ''Kishida'']\<rparr>))))) = Inl (ServiceFailure 2)
   \<and> ascii ''structured'' \<in> set (enabledStrategies
         (examplePlan [''a''] [''vector'', ''structured'']
            (noEntities\<lparr>speakers := Some [ascii ''Kishida'']\<rparr>)))
   \<and> fst (filterConditions (noEntities\<lparr>speakers := Some [ascii ''Kishida'']\<rparr>))
       = [AnyOf [ILike Speaker 1]]
   \<and> applyStructuredFilter (Some failingFilterStore)
        (entities (examplePlan [''a''] [''vector'', ''structured'']
            (noEntities\<lparr>speakers := Some [ascii ''Kishida'']\<rparr>))) = Inr []
   \<and> searchRequest failingFilterStore
        (examplePlan [''a''] [''vector'', ''structured'']
            (noEntities\<lparr>speakers := Some [ascii ''Kishida'']\<rparr>)) 5 [2]
       = Inr (SelectSimilar None 0.6 2, [PVector [2], PNumber 5])"
proof -
  let ?plan = "examplePlan [''a''] [''vector'', ''structured'']
                 (noEntities\<lparr>speakers := Some [ascii ''Kishida'']\<rparr>)"
  have f: "failingFilterStore (SelectCandidates (fst (filterConditions (entities ?plan))))
             (snd (filterConditions (entities ?plan))) = Inl (ServiceFailure 2)"
    by (simp add: failingFilterStore_def)
  have s: "ascii ''structured'' \<in> set (enabledStrategies ?plan)"
    by (simp add: examplePlan_def)
  have c: "fst (filterConditions (noEntities\<lparr>speakers := Some [ascii ''Kishida'']\<rparr>))
             = [AnyOf [ILike Speaker 1]]"
    by (simp add: filter_eval)
  show ?thesis
    using f s c
      C8_filter_failure_degrades
        [where db = failingFilterStore and plan = ?plan and topK = 5 and queryEmbedding = "[2]", OF f]
    by simp
qed

lemma filterConditions_frame:
  "filterConditions (ents\<lparr>meetings := m, positions := p, topics := t\<rparr>) = filterConditions ents"
  by (simp add: filterConditions_def)

lemma applyStructuredFilter_frame:
  "applyStructuredFilter dbp (ents\<lparr>meetings := m, positions := p, topics := t\<rparr>)
     = applyStructuredFilter dbp ents"
  unfolding applyStructuredFilter_def filterConditions_frame by (rule refl)

lemma searchRequest_entities:
  "applyStructuredFilter (Some db) ents' = applyStructuredFilter (Some db) (entities plan)
     \<Longrightarrow> searchRequest db (plan\<lparr>entities := ents'\<rparr>) topK v = searchRequest db plan topK v"
  by (simp add: searchRequest_def)

lemma searchSubquery_frame:
  "searchSubquery db emb pf (plan\<lparr>entities := (entities plan)\<lparr>meetings := m, positions := p\<rparr>\<rparr>) topK q
     = searchSubquery db emb pf plan topK q"
proof -
  have h: "applyStructuredFilter (Some db) ((entities plan)\<lparr>meetings := m, positions := p\<rparr>)
          = applyStructuredFilter (Some db) (entities plan)"
    using applyStructuredFilter_frame
      [where dbp = "Some db" and ents = "entities plan" and m = m and p = p
         and t = "topics (entities plan)"]
    by simp
  show ?thesis
    unfolding searchSubquery_def searchRequest_entities [OF h] by (simp add: expandedQuery_def)
qed

lemma searchLoop_frame:
  "searchLoop db emb pf (plan\<lparr>entities := (entities plan)\<lparr>meetings := m, positions := p\<rparr>\<rparr>) topK qs acc
     = searchLoop db emb pf plan topK qs acc"
  by (induction qs arbitrary: acc) (simp_all add: searchSubquery_frame split: sum.splits)

lemma searchSubquery_topics:
  "searchSubquery db emb pf (plan\<lparr>entities := (entities plan)\<lparr>topics := t\<rparr>\<rparr>) topK q
     = searchSubquery db (\<lambda>s. emb (expandedQuery q ((entities plan)\<lparr>topics := t\<rparr>))) pf plan topK q"
proof -
  have h: "applyStructuredFilter (Some db) ((entities plan)\<lparr>topics := t\<rparr>)
          = applyStructuredFilter (Some db) (entities plan)"
    using applyStructuredFilter_frame
      [where dbp = "Some db" and ents = "entities plan" and m = "meetings (entities plan)"
         and p = "positions (entities plan)" and t = t]
    by simp
  show ?thesis
    unfolding searchSubquery_def searchRequest_entities [OF h] by simp
qed

text \<open>
  Claim C10. The conditions of the structured filter, and so its candidate ids, are built
  from \<open>speakers\<close>, \<open>parties\<close> and \<open>dateRange\<close> only: \<open>meetings\<close>, \<open>positions\<close> and
  \<open>topics\<close> do not change them, and \<open>meetings\<close> and \<open>positions\<close> do not change the
  result of the search at all. The \<open>topics\<close> act only through the text given to the
  embedding service: a non-empty list is joined by spaces and appended to the sub-query
  after a space.
\<close>

theorem C10_filter_frame:
  "filterConditions (ents\<lparr>meetings := m, positions := p, topics := t\<rparr>) = filterConditions ents
   \<and> applyStructuredFilter dbp (ents\<lparr>meetings := m, positions := p, topics := t\<rparr>)
       = applyStructuredFilter dbp ents
   \<and> searchWithPlan sv (plan\<lparr>entities := (entities plan)\<lparr>meetings := m, positions := p\<rparr>\<rparr>) topK
       = searchWithPlan sv plan topK
   \<and> searchSubquery db emb pf (plan\<lparr>entities := (entities plan)\<lparr>topics := t\<rparr>\<rparr>) topK q
       = searchSubquery db (\<lambda>s. emb (expandedQuery q ((entities plan)\<lparr>topics := t\<rparr>))) pf plan topK q
   \<and> expandedQuery q (ents\<lparr>topics := Some (t1 # ts)\<rparr>)
       = q @ ascii '' '' @ join (ascii '' '') (t1 # ts)
   \<and> expandedQuery q (ents\<lparr>topics := Some []\<rparr>) = q
   \<and> expandedQuery q (ents\<lparr>topics := None\<rparr>) = q"
proof -
  have "searchWithPlan sv (plan\<lparr>entities := (entities plan)\<lparr>meetings := m, positions := p\<rparr>\<rparr>) topK
       = searchWithPlan sv plan topK"
    unfolding searchWithPlan_def searchLoop_frame by (simp split: option.splits)
  then show ?thesis
    by (simp add: filterConditions_frame applyStructuredFilter_frame searchSubquery_topics
          expandedQuery_def)
qed


section \<open>Claims about the answer synthesis\<close>










section \<open>Claims about the planner\<close>

lemmas plan_eval =
  planFromResponse_def toQueryPlan_def logPlan_def js_or_def optProp_def defaultEntities_def
  Let_def

lemma trim_fourSubqueriesText: "trim fourSubqueriesText = fourSubqueriesText"
  by (simp add: trim_def isWhiteSpace_def fourSubqueriesText_def)

lemma trim_outOfRangeText: "trim outOfRangeText = outOfRangeText"
  by (simp add: trim_def isWhiteSpace_def outOfRangeText_def)

lemma fourSubqueriesText_nonempty: "fourSubqueriesText \<noteq> []"
  by (simp add: fourSubqueriesText_def)

lemma outOfRangeText_nonempty: "outOfRangeText \<noteq> []"
  by (simp add: outOfRangeText_def)

lemma planFromResponse_fourSubqueries:
  "planFromResponse (ascii ''q'') fourSubqueries = Inr fourSubqueriesPlan"
  by (simp add: plan_eval fourSubqueries_def fourSubqueriesPlan_def ascii_def)

lemma planFromResponse_outOfRange:
  "planFromResponse (ascii ''q'') outOfRange = Inr outOfRangePlan"
  by (simp add: plan_eval outOfRange_def outOfRangePlan_def ascii_def)

lemma planFromResponse_Inr:
  assumes "planFromResponse question planData = Inr plan"
  shows "toQueryPlan question planData = Inr plan" and "logPlan plan = Inr ()"
proof -
  show t: "toQueryPlan question planData = Inr plan"
    using assms by (cases "toQueryPlan question planData")
      (simp_all add: planFromResponse_def split: sum.splits)
  show "logPlan plan = Inr ()"
    using assms t by (cases "logPlan plan") (simp_all add: planFromResponse_def)
qed

lemma toQueryPlan_Inr:
  assumes "toQueryPlan question planData = Inr plan"
  shows "plan_subqueries plan = js_or (optProp planData (ascii ''subqueries'')) (JArr [JStr question])"
    and "plan_confidence plan = js_or (optProp planData (ascii ''confidence'')) (JNum 0.5)"
    and "plan_estimatedComplexity plan
           = js_or (optProp planData (ascii ''estimatedComplexity'')) (JNum 2)"
proof -
  obtain sub where sub: "getProp planData (ascii ''subqueries'') = Inr sub"
    using assms by (cases "getProp planData (ascii ''subqueries'')")
      (simp_all add: toQueryPlan_def)
  then have o: "optProp planData (ascii ''subqueries'') = sub" by (simp add: optProp_def)
  have p: "plan = \<lparr> plan_originalQuestion = question,
                 plan_subqueries = js_or sub (JArr [JStr question]),
                 plan_entities =
                   \<lparr> ent_speakers = js_or (optProp (optProp planData (ascii ''entities'')) (ascii ''speakers'')) (JArr []),
                     ent_parties = js_or (optProp (optProp planData (ascii ''entities'')) (ascii ''parties'')) (JArr []),
                     ent_topics = js_or (optProp (optProp planData (ascii ''entities'')) (ascii ''topics'')) (JArr []),
                     ent_meetings = js_or (optProp (optProp planData (ascii ''entities'')) (ascii ''meetings'')) (JArr []),
                     ent_positions = js_or (optProp (optProp planData (ascii ''entities'')) (ascii ''positions'')) (JArr []),
                     ent_dateRange = optProp (optProp planData (ascii ''entities'')) (ascii ''dateRange'') \<rparr>,
                 plan_enabledStrategies =
                   js_or (optProp planData (ascii ''enabledStrategies''))
                     (JArr [JStr (ascii ''vector'')]),
                 plan_confidence = js_or (optProp planData (ascii ''confidence'')) (JNum 0.5),
                 plan_estimatedComplexity =
                   js_or (optProp planData (ascii ''estimatedComplexity'')) (JNum 2) \<rparr>"
    using assms unfolding toQueryPlan_def sub Let_def by simp
  show "plan_subqueries plan = js_or (optProp planData (ascii ''subqueries'')) (JArr [JStr question])"
    by (subst p) (simp add: o)
  show "plan_confidence plan = js_or (optProp planData (ascii ''confidence'')) (JNum 0.5)"
    by (subst p) simp
  show "plan_estimatedComplexity plan
           = js_or (optProp planData (ascii ''estimatedComplexity'')) (JNum 2)"
    by (subst p) simp
qed

lemma logPlan_Inr: "logPlan plan = Inr u \<Longrightarrow> \<exists>x. plan_confidence plan = JNum x"
  by (cases "plan_enabledStrategies plan"; cases "plan_confidence plan")
     (simp_all add: logPlan_def)

text \<open>The planners apply \<open>planFromResponse\<close> to the parsed response.\<close>

lemma planKokkaiQuery_parsed:
  "llm_complete (planPrompt question) = Inr responseText
     \<Longrightarrow> JSON_parse (trim responseText) = Some planData
     \<Longrightarrow> planKokkaiQuery (Some llm_complete) JSON_parse question
           = planFromResponse question planData"
  by (simp add: planKokkaiQuery_def)

lemma createQueryPlan_parsed:
  "chat (createQueryPlanPrompt userQuestion) = Inr (Some content')
     \<Longrightarrow> trim content' \<noteq> []
     \<Longrightarrow> JSON_parse (trim content') = Some planData
     \<Longrightarrow> createQueryPlan createQueryPlanPrompt chat JSON_parse userQuestion
           = planFromResponse userQuestion planData"
  by (simp add: createQueryPlan_def)

text \<open>
  Claim C4, as stated, fails: a response whose \<open>subqueries\<close> is an array of four strings
  is parsed, and both planners return a plan with these four sub-queries.
\<close>

theorem C4_counterexample:
  "planKokkaiQuery (Some (respondWith fourSubqueriesText))
      (parsesTo fourSubqueriesText fourSubqueries) (ascii ''q'') = Inr fourSubqueriesPlan
   \<and> createQueryPlan (\<lambda>question. question) (\<lambda>prompt. Inr (Some fourSubqueriesText))
      (parsesTo fourSubqueriesText fourSubqueries) (ascii ''q'') = Inr fourSubqueriesPlan
   \<and> plan_subqueries fourSubqueriesPlan
       = JArr [JStr (ascii ''a''), JStr (ascii ''b''), JStr (ascii ''c''), JStr (ascii ''d'')]"
  by (simp add: planKokkaiQuery_def createQueryPlan_def respondWith_def parsesTo_def
        trim_fourSubqueriesText fourSubqueriesText_nonempty planFromResponse_fourSubqueries)
     (simp add: fourSubqueriesPlan_def)

text \<open>
  Claim C4, amended. For every parsed response from which a planner returns a plan, and
  whose \<open>subqueries\<close> is not the empty array: the plan's \<open>subqueries\<close> is the parsed value
  as it is whenever that value is truthy (its length and its elements are not checked),
  and the singleton of the original question when the field is absent or falsy.
\<close>

theorem C4_subqueries_kept_or_defaulted:
  assumes "planFromResponse question planData = Inr plan"
    and "optProp planData (ascii ''subqueries'') \<noteq> JArr []"
  shows "plan_subqueries plan
           = (if truthy (optProp planData (ascii ''subqueries''))
              then optProp planData (ascii ''subqueries'')
              else JArr [JStr question])"
  using toQueryPlan_Inr(1) [OF planFromResponse_Inr(1) [OF assms(1)]]
  by (simp add: js_or_def)

theorem C4_subqueries_kept_or_defaulted_witness:
  "planFromResponse (ascii ''q'') fourSubqueries = Inr fourSubqueriesPlan
   \<and> optProp fourSubqueries (ascii ''subqueries'') \<noteq> JArr []
   \<and> truthy (optProp fourSubqueries (ascii ''subqueries''))
   \<and> plan_subqueries fourSubqueriesPlan = optProp fourSubqueries (ascii ''subqueries'')
   \<and> planFromResponse (ascii ''q'') outOfRange = Inr outOfRangePlan
   \<and> \<not> truthy (optProp outOfRange (ascii ''subqueries''))
   \<and> plan_subqueries outOfRangePlan = JArr [JStr (ascii ''q'')]"
proof -
  have a: "optProp fourSubqueries (ascii ''subqueries'') \<noteq> JArr []"
    and t: "truthy (optProp fourSubqueries (ascii ''subqueries''))"
    by (simp_all add: optProp_def fourSubqueries_def)
  have b: "optProp outOfRange (ascii ''subqueries'') \<noteq> JArr []"
    and f: "\<not> truthy (optProp outOfRange (ascii ''subqueries''))"
    by (simp_all add: optProp_def outOfRange_def ascii_def)
  show ?thesis
    using a t f planFromResponse_fourSubqueries planFromResponse_outOfRange
      C4_subqueries_kept_or_defaulted [OF planFromResponse_fourSubqueries a]
      C4_subqueries_kept_or_defaulted [OF planFromResponse_outOfRange b]
    by simp
qed

text \<open>
  Claim C9, as stated, fails: a response with the confidence 1.5 and the complexity 9 is
  parsed, and both planners return a plan with these two values.
\<close>

theorem C9_counterexample:
  "planKokkaiQuery (Some (respondWith outOfRangeText))
      (parsesTo outOfRangeText outOfRange) (ascii ''q'') = Inr outOfRangePlan
   \<and> createQueryPlan (\<lambda>question. question) (\<lambda>prompt. Inr (Some outOfRangeText))
      (parsesTo outOfRangeText outOfRange) (ascii ''q'') = Inr outOfRangePlan
   \<and> plan_confidence outOfRangePlan = JNum 1.5
   \<and> plan_estimatedComplexity outOfRangePlan = JNum 9"
  by (simp add: planKokkaiQuery_def createQueryPlan_def respondWith_def parsesTo_def
        trim_outOfRangeText outOfRangeText_nonempty planFromResponse_outOfRange)
     (simp add: outOfRangePlan_def)

text \<open>
  Claim C9, amended. For every parsed response from which a planner returns a plan, and
  whose \<open>confidence\<close> is not the number 0: the plan's \<open>confidence\<close> is a number, the parsed
  value as it is when that value is truthy (its range is not checked) and 0.5 when the
  field is absent or falsy; the plan's \<open>estimatedComplexity\<close> is the parsed value as it
  is when that value is truthy (neither its type nor its range is checked) and 2 when
  the field is absent or falsy.
\<close>

theorem C9_confidence_and_complexity:
  assumes "planFromResponse question planData = Inr plan"
    and "optProp planData (ascii ''confidence'') \<noteq> JNum 0"
  shows "plan_confidence plan
           = (if truthy (optProp planData (ascii ''confidence''))
              then optProp planData (ascii ''confidence'') else JNum 0.5)
         \<and> (\<exists>x. plan_confidence plan = JNum x)
         \<and> plan_estimatedComplexity plan
           = (if truthy (optProp planData (ascii ''estimatedComplexity''))
              then optProp planData (ascii ''estimatedComplexity'') else JNum 2)"
  using toQueryPlan_Inr(2,3) [OF planFromResponse_Inr(1) [OF assms(1)]]
    logPlan_Inr [OF planFromResponse_Inr(2) [OF assms(1)]]
  by (simp add: js_or_def)

theorem C9_confidence_and_complexity_witness:
  "planFromResponse (ascii ''q'') outOfRange = Inr outOfRangePlan
   \<and> optProp outOfRange (ascii ''confidence'') \<noteq> JNum 0
   \<and> plan_confidence outOfRangePlan = JNum 1.5
   \<and> plan_estimatedComplexity outOfRangePlan = JNum 9
   \<and> planFromResponse (ascii ''q'') fourSubqueries = Inr fourSubqueriesPlan
   \<and> optProp fourSubqueries (ascii ''confidence'') \<noteq> JNum 0
   \<and> plan_confidence fourSubqueriesPlan = JNum 0.5
   \<and> plan_estimatedComplexity fourSubqueriesPlan = JNum 2"
proof -
  have a: "optProp outOfRange (ascii ''confidence'') \<noteq> JNum 0"
    and a1: "optProp outOfRange (ascii ''confidence'') = JNum 1.5"
    and a2: "optProp outOfRange (ascii ''estimatedComplexity'') = JNum 9"
    by (simp_all add: optProp_def outOfRange_def ascii_def)
  have b: "optProp fourSubqueries (ascii ''confidence'') \<noteq> JNum 0"
    and b1: "optProp fourSubqueries (ascii ''confidence'') = JUndefined"
    and b2: "optProp fourSubqueries (ascii ''estimatedComplexity'') = JUndefined"
    by (simp_all add: optProp_def fourSubqueries_def ascii_def)
  show ?thesis
    using a b planFromResponse_fourSubqueries planFromResponse_outOfRange
      C9_confidence_and_complexity [OF planFromResponse_outOfRange a]
      C9_confidence_and_complexity [OF planFromResponse_fourSubqueries b]
    by (simp add: a1 a2 b1 b2)
qed

end
